theory Spec2Isabelle
  imports Main
begin

chapter \<open>The multithreaded HTTP server: lock registry, hash table and handlers\<close>

text \<open>
  A shallow embedding of \<^verbatim>\<open>hash_table.c\<close>, \<^verbatim>\<open>ll.c\<close>, \<^verbatim>\<open>item.h\<close> and of the server's
  main file (\<^verbatim>\<open>get_file_lock\<close>, \<^verbatim>\<open>cleanup_file_locks\<close>, \<^verbatim>\<open>main\<close>, \<^verbatim>\<open>handle_get\<close>,
  \<^verbatim>\<open>handle_put\<close>). The embedding is sequential: one call runs to its end before the next
  starts, so the registry mutex that brackets \<^verbatim>\<open>get_file_lock\<close> shows only as events.

  Pointers are \<open>nat option\<close>: \<open>None\<close> is \<^verbatim>\<open>NULL\<close>, \<open>Some a\<close> the address \<open>a\<close>.
\<close>

section \<open>Items and chains (item.h, ll.c)\<close>

text \<open>
  \<^verbatim>\<open>struct item { char key[255]; rwlock_t *id; }\<close>. The key buffer holds at most 254
  bytes and the terminating NUL.
\<close>

record item =
  item_key :: string
  item_id :: "nat option"

definition KEY_SIZE :: nat where
  "KEY_SIZE = 255"

text \<open>
  \<^verbatim>\<open>snprintf(buf, sizeof(buf), "%s", key)\<close>: the first \<open>KEY_SIZE - 1\<close> bytes of the key are
  stored, the rest is cut off.
\<close>

definition snprintf_key :: "string \<Rightarrow> string" where
  "snprintf_key k = take (KEY_SIZE - 1) k"

text \<open>
  Modelled from the spec: \<^verbatim>\<open>cmp\<close> is declared in item.h and its body is not among the
  sources. The spec: the comparator for chain traversal "is always exact key-string
  equality".
\<close>

definition cmp :: "item \<Rightarrow> item \<Rightarrow> bool" where
  "cmp a b = (item_key a = item_key b)"

text \<open>
  A chain \<^verbatim>\<open>LL\<close> is the list of its nodes' items from \<^verbatim>\<open>head\<close> on. \<^verbatim>\<open>list_add\<close> allocates
  a node and links it before the head; it returns false, and leaves the chain alone,
  when \<^verbatim>\<open>malloc\<close> fails (the flag \<open>malloc_ok\<close> is the outcome of that \<^verbatim>\<open>malloc\<close>).
\<close>

type_synonym LL = "item list"

definition list_add :: "bool \<Rightarrow> LL \<Rightarrow> item \<Rightarrow> bool \<times> LL" where
  "list_add malloc_ok l i = (if \<not> malloc_ok then (False, l) else (True, i # l))"

text \<open>
  \<^verbatim>\<open>list_find\<close> walks the chain from the head and returns a pointer to the data of the
  first node the comparator accepts: here the position of that node in the chain.
\<close>

fun list_find :: "LL \<Rightarrow> (item \<Rightarrow> item \<Rightarrow> bool) \<Rightarrow> item \<Rightarrow> nat option" where
  "list_find [] cmpfn i = None"
| "list_find (n # ns) cmpfn i =
     (if cmpfn n i then Some 0
      else (case list_find ns cmpfn i of None \<Rightarrow> None | Some p \<Rightarrow> Some (Suc p)))"

section \<open>The hash table (hash_table.h, hash_table.c)\<close>

definition TABLE_SIZE :: nat where
  "TABLE_SIZE = 128"

text \<open>
  \<^verbatim>\<open>struct Hashtable { LL *table[TABLE_SIZE]; }\<close>: the list of the \<open>TABLE_SIZE\<close> chains.
  \<^verbatim>\<open>hash_create\<close> gives \<open>TABLE_SIZE\<close> empty chains, or \<^verbatim>\<open>NULL\<close> when an allocation fails.
\<close>

type_synonym Hashtable = "LL list"

definition hash_create :: "bool \<Rightarrow> Hashtable option" where
  "hash_create malloc_ok = (if malloc_ok then Some (replicate TABLE_SIZE []) else None)"

text \<open>
  The string hash of \<^verbatim>\<open>hash_fn.h\<close> is not among the sources: every definition takes it
  as the parameter \<open>hash\<close>, an unsigned number for every string (the index is
  \<^verbatim>\<open>size_t index = hash(key) % TABLE_SIZE\<close>). \<^verbatim>\<open>hash_get\<close> cuts the key to the buffer for the
  comparison but hashes the key as given. Its result, a pointer to the \<^verbatim>\<open>id\<close> field of the item
  found, is the pair of the bucket index and the position in the chain.
\<close>

definition hash_get :: "(string \<Rightarrow> nat) \<Rightarrow> Hashtable \<Rightarrow> string \<Rightarrow> (nat \<times> nat) option" where
  "hash_get hash ht key =
     (let search_item = \<lparr>item_key = snprintf_key key, item_id = None\<rparr>;
          index = hash key mod TABLE_SIZE
      in case list_find (ht ! index) cmp search_item of
           Some pos \<Rightarrow> Some (index, pos)
         | None \<Rightarrow> None)"

text \<open>Reading and writing through the pointer that \<^verbatim>\<open>hash_get\<close> returns.\<close>

definition load_id :: "Hashtable \<Rightarrow> nat \<times> nat \<Rightarrow> nat option" where
  "load_id ht loc = item_id (ht ! fst loc ! snd loc)"

definition store_id :: "Hashtable \<Rightarrow> nat \<times> nat \<Rightarrow> nat option \<Rightarrow> Hashtable" where
  "store_id ht loc val =
     ht[fst loc := (ht ! fst loc)[snd loc := (ht ! fst loc ! snd loc)\<lparr>item_id := val\<rparr>]]"

definition hash_put ::
  "(string \<Rightarrow> nat) \<Rightarrow> bool \<Rightarrow> Hashtable \<Rightarrow> string \<Rightarrow> nat option \<Rightarrow> bool \<times> Hashtable" where
  "hash_put hash malloc_ok ht key val =
     (case hash_get hash ht key of
        Some existing_val \<Rightarrow> (True, store_id ht existing_val val)
      | None \<Rightarrow>
          (let new_item = \<lparr>item_key = snprintf_key key, item_id = val\<rparr>;
               index = hash key mod TABLE_SIZE;
               r = list_add malloc_ok (ht ! index) new_item
           in (fst r, ht[index := snd r])))"

text \<open>
  A sample string hash (the sum of the bytes), used only where a concrete input is
  evaluated; no general statement depends on it.
\<close>

definition hash_sum :: "string \<Rightarrow> nat" where
  "hash_sum s = sum_list (map of_char s)"

text \<open>A run of puts, each with the outcome of its allocation, its key and its value.\<close>

fun hash_puts ::
  "(string \<Rightarrow> nat) \<Rightarrow> Hashtable \<Rightarrow> (bool \<times> string \<times> nat option) list \<Rightarrow> Hashtable" where
  "hash_puts hash ht [] = ht"
| "hash_puts hash ht (p # ps) =
     hash_puts hash (snd (hash_put hash (fst p) ht (fst (snd p)) (snd (snd p)))) ps"

section \<open>The lock registry (get_file_lock)\<close>

text \<open>
  What a call does besides returning is kept as a list of events, in the order of the
  calls in the source. The events of \<^verbatim>\<open>get_file_lock\<close> are the mutex operations, the call
  of \<^verbatim>\<open>rwlock_new\<close> with its result, \<^verbatim>\<open>rwlock_delete\<close> and the lines written to stderr; the
  others belong to the request handlers below.
\<close>

datatype response =
    RESPONSE_OK
  | RESPONSE_CREATED
  | RESPONSE_FORBIDDEN
  | RESPONSE_NOT_FOUND
  | RESPONSE_INTERNAL_SERVER_ERROR
  | RESPONSE_NOT_IMPLEMENTED

datatype open_flags = O_RDONLY | O_WRONLY_CREAT_TRUNC

datatype event =
    Mutex_lock
  | Mutex_unlock
  | Rwlock_new "nat option"
  | Rwlock_delete nat
  | Stderr string
  | Open_file string open_flags
  | Close_fd nat
  | Fstat nat
  | Mkstemp
  | Access string
  | Unlink string
  | Conn_send_response response
  | Conn_send_file nat int
  | Conn_recv_file nat
  | Pass_n_bytes nat nat int
  | Audit string string int string
  | Reader_lock "nat option"
  | Reader_unlock "nat option"
  | Writer_lock "nat option"
  | Writer_unlock "nat option"

text \<open>
  \<^verbatim>\<open>get_file_lock\<close> on the table \<^verbatim>\<open>file_lock_ht\<close>. \<open>new_lock\<close> is what \<^verbatim>\<open>rwlock_new\<close> returns if
  it is called (\<open>None\<close>: it failed) and \<open>malloc_ok\<close> the outcome of the allocation in
  \<^verbatim>\<open>list_add\<close>. The result is the pointer returned, the table afterwards and the events.
\<close>

definition get_file_lock ::
  "(string \<Rightarrow> nat) \<Rightarrow> nat option \<Rightarrow> bool \<Rightarrow> Hashtable \<Rightarrow> string
     \<Rightarrow> nat option \<times> Hashtable \<times> event list" where
  "get_file_lock hash new_lock malloc_ok ht filename =
     (case hash_get hash ht filename of
        Some file_lock \<Rightarrow> (load_id ht file_lock, ht, [Mutex_lock, Mutex_unlock])
      | None \<Rightarrow>
          (case new_lock of
             None \<Rightarrow>
               (None, ht,
                [Mutex_lock, Rwlock_new None,
                 Stderr (''Failed to create new lock for file: '' @ filename),
                 Mutex_unlock])
           | Some l \<Rightarrow>
               (let r = hash_put hash malloc_ok ht filename (Some l) in
                if \<not> fst r then
                  (None, snd r,
                   [Mutex_lock, Rwlock_new (Some l), Rwlock_delete l,
                    Stderr (''Failed to add lock to hash table for file: '' @ filename),
                    Mutex_unlock])
                else (Some l, snd r, [Mutex_lock, Rwlock_new (Some l), Mutex_unlock]))))"

text \<open>
  A run of calls of \<^verbatim>\<open>get_file_lock\<close>, each with the outcomes of its allocations and its
  path; the table is threaded through.
\<close>

fun get_file_lock_calls ::
  "(string \<Rightarrow> nat) \<Rightarrow> Hashtable \<Rightarrow> (nat option \<times> bool \<times> string) list \<Rightarrow> Hashtable" where
  "get_file_lock_calls hash ht [] = ht"
| "get_file_lock_calls hash ht (c # cs) =
     get_file_lock_calls hash
       (fst (snd (get_file_lock hash (fst c) (fst (snd c)) ht (snd (snd c))))) cs"

text \<open>
  \<open>found hash ht k v\<close>: \<^verbatim>\<open>hash_get\<close> finds an entry for the key \<open>k\<close>, and the pointer stored
  in it is \<open>v\<close>.
\<close>

definition found :: "(string \<Rightarrow> nat) \<Rightarrow> Hashtable \<Rightarrow> string \<Rightarrow> nat option \<Rightarrow> bool" where
  "found hash ht k v = (case hash_get hash ht k of None \<Rightarrow> False | Some loc \<Rightarrow> load_id ht loc = v)"

section \<open>The request handlers (handle_get, handle_put)\<close>

text \<open>
  A handler runs on a connection whose request was parsed, so the URI is a string. The
  connection gives the URI and the \<^verbatim>\<open>Request-Id\<close> header (\<open>None\<close>: the request has none).
\<close>

record conn =
  conn_uri :: string
  conn_request_id :: "string option"

text \<open>
  \<^verbatim>\<open>audit_log\<close> writes the line \<^verbatim>\<open>METHOD,/URI,STATUS,REQUEST-ID\<close> to stderr; an absent
  request id is written as \<^verbatim>\<open>0\<close>. (Its default for a NULL URI cannot apply here.)
\<close>

definition audit_log :: "string \<Rightarrow> conn \<Rightarrow> int \<Rightarrow> event" where
  "audit_log method c status_code =
     Audit method (conn_uri c) status_code
       (case conn_request_id c of None \<Rightarrow> ''0'' | Some request_id \<Rightarrow> request_id)"

text \<open>
  The handlers call the operating system and the connection library; what those calls
  return is the input \<open>env\<close> of the model, one field per call. A file descriptor is a
  \<open>nat\<close>; a call that fails gives its \<^verbatim>\<open>errno\<close> or \<open>None\<close>.
\<close>

datatype errno = EACCES | ENOENT | EISDIR | Errno nat

record file_stat =
  st_size :: int
  st_isdir :: bool

text \<open>
  How a handler ends: it returns to \<^verbatim>\<open>handle_connection\<close>, or it calls \<^verbatim>\<open>reader_lock\<close> or
  \<^verbatim>\<open>writer_lock\<close> on a NULL lock. The lock operations are not among the sources; an
  operation on a lock reads the lock's fields, so on NULL it dereferences a null
  pointer, and the model stops there with \<open>Crashed\<close>.
\<close>

datatype outcome = Returned | Crashed

record get_env =
  get_open :: "errno + nat"
  get_new_lock :: "nat option"
  get_malloc_ok :: bool
  get_fstat :: "file_stat option"
  get_send_file :: "response option"

definition handle_get ::
  "(string \<Rightarrow> nat) \<Rightarrow> get_env \<Rightarrow> Hashtable \<Rightarrow> conn \<Rightarrow> event list \<times> Hashtable \<times> outcome" where
  "handle_get hash env ht c =
     (let uri = conn_uri c in
      case get_open env of
        Inl e \<Rightarrow>
          (if e = EACCES then
             ([Open_file uri O_RDONLY, Conn_send_response RESPONSE_FORBIDDEN,
               audit_log ''GET'' c 403], ht, Returned)
           else if e = ENOENT then
             ([Open_file uri O_RDONLY, Conn_send_response RESPONSE_NOT_FOUND,
               audit_log ''GET'' c 404], ht, Returned)
           else
             ([Open_file uri O_RDONLY, Conn_send_response RESPONSE_INTERNAL_SERVER_ERROR,
               audit_log ''GET'' c 500], ht, Returned))
      | Inr fd \<Rightarrow>
          (let r = get_file_lock hash (get_new_lock env) (get_malloc_ok env) ht uri;
               lock = fst r;
               ht' = fst (snd r);
               t = [Open_file uri O_RDONLY] @ snd (snd r) @ [Reader_lock lock]
           in if lock = None then (t, ht', Crashed)
              else
                (case get_fstat env of
                   None \<Rightarrow>
                     (t @ [Fstat fd, Conn_send_response RESPONSE_INTERNAL_SERVER_ERROR,
                           audit_log ''GET'' c 500, Reader_unlock lock], ht', Returned)
                 | Some st \<Rightarrow>
                     if st_isdir st then
                       (t @ [Fstat fd, Conn_send_response RESPONSE_FORBIDDEN,
                             audit_log ''GET'' c 403, Reader_unlock lock], ht', Returned)
                     else
                       (case get_send_file env of
                          Some res \<Rightarrow>
                            (t @ [Fstat fd, Conn_send_file fd (st_size st), Conn_send_response res,
                                  audit_log ''GET'' c 500, Close_fd fd, Reader_unlock lock],
                             ht', Returned)
                        | None \<Rightarrow>
                            (t @ [Fstat fd, Conn_send_file fd (st_size st),
                                  audit_log ''GET'' c 200, Close_fd fd, Reader_unlock lock],
                             ht', Returned)))))"

text \<open>
  \<^verbatim>\<open>handle_put\<close>. \<open>put_tmp_name\<close> is the name \<^verbatim>\<open>mkstemp\<close> wrote into the template,
  \<open>put_access\<close> the result of \<^verbatim>\<open>access(uri, F_OK)\<close> (negative: no such file) and
  \<open>put_pass_n_bytes\<close> the result of \<^verbatim>\<open>pass_n_bytes\<close> (\<open>-1\<close>: the copy failed).
\<close>

record put_env =
  put_mkstemp :: "nat option"
  put_tmp_name :: string
  put_recv_file :: "response option"
  put_new_lock :: "nat option"
  put_malloc_ok :: bool
  put_access :: int
  put_open_target :: "errno + nat"
  put_open_tmp :: "nat option"
  put_fstat :: "file_stat option"
  put_pass_n_bytes :: int

definition handle_put ::
  "(string \<Rightarrow> nat) \<Rightarrow> put_env \<Rightarrow> Hashtable \<Rightarrow> conn \<Rightarrow> event list \<times> Hashtable \<times> outcome" where
  "handle_put hash env ht c =
     (let uri = conn_uri c; tmp = put_tmp_name env in
      case put_mkstemp env of
        None \<Rightarrow>
          ([Mkstemp, Conn_send_response RESPONSE_INTERNAL_SERVER_ERROR, audit_log ''PUT'' c 500],
           ht, Returned)
      | Some tmp_fd \<Rightarrow>
          (case put_recv_file env of
             Some res \<Rightarrow>
               ([Mkstemp, Conn_recv_file tmp_fd,
                 Conn_send_response RESPONSE_INTERNAL_SERVER_ERROR, audit_log ''PUT'' c 500,
                 Close_fd tmp_fd, Unlink tmp], ht, Returned)
           | None \<Rightarrow>
               (let r = get_file_lock hash (put_new_lock env) (put_malloc_ok env) ht uri;
                    lock = fst r;
                    ht' = fst (snd r);
                    t = [Mkstemp, Conn_recv_file tmp_fd, Close_fd tmp_fd] @ snd (snd r)
                          @ [Writer_lock lock]
                in if lock = None then (t, ht', Crashed)
                   else
                     (case put_open_target env of
                        Inl e \<Rightarrow>
                          (if e = EACCES \<or> e = EISDIR then
                             (t @ [Access uri, Open_file uri O_WRONLY_CREAT_TRUNC,
                                   Conn_send_response RESPONSE_FORBIDDEN, audit_log ''PUT'' c 403,
                                   Unlink tmp, Writer_unlock lock], ht', Returned)
                           else
                             (t @ [Access uri, Open_file uri O_WRONLY_CREAT_TRUNC,
                                   Conn_send_response RESPONSE_INTERNAL_SERVER_ERROR,
                                   audit_log ''PUT'' c 500,
                                   Unlink tmp, Writer_unlock lock], ht', Returned))
                      | Inr target_fd \<Rightarrow>
                          (let t1 = t @ [Access uri, Open_file uri O_WRONLY_CREAT_TRUNC,
                                         Open_file tmp O_RDONLY]
                           in case put_open_tmp env of
                                None \<Rightarrow>
                                  (t1 @ [Conn_send_response RESPONSE_INTERNAL_SERVER_ERROR,
                                         audit_log ''PUT'' c 500, Close_fd target_fd,
                                         Unlink tmp, Writer_unlock lock], ht', Returned)
                              | Some tmp_fd2 \<Rightarrow>
                                  (case put_fstat env of
                                     None \<Rightarrow>
                                       (t1 @ [Fstat tmp_fd2,
                                              Conn_send_response RESPONSE_INTERNAL_SERVER_ERROR,
                                              audit_log ''PUT'' c 500, Close_fd target_fd,
                                              Close_fd tmp_fd2, Unlink tmp, Writer_unlock lock],
                                        ht', Returned)
                                   | Some st \<Rightarrow>
                                       if put_pass_n_bytes env = - 1 then
                                         (t1 @ [Fstat tmp_fd2,
                                                Pass_n_bytes tmp_fd2 target_fd (st_size st),
                                                Conn_send_response RESPONSE_INTERNAL_SERVER_ERROR,
                                                audit_log ''PUT'' c 500, Close_fd target_fd,
                                                Close_fd tmp_fd2, Unlink tmp, Writer_unlock lock],
                                          ht', Returned)
                                       else if put_access env < 0 then
                                         (t1 @ [Fstat tmp_fd2,
                                                Pass_n_bytes tmp_fd2 target_fd (st_size st),
                                                Close_fd tmp_fd2, Close_fd target_fd,
                                                Conn_send_response RESPONSE_CREATED,
                                                audit_log ''PUT'' c 201,
                                                Unlink tmp, Writer_unlock lock], ht', Returned)
                                       else
                                         (t1 @ [Fstat tmp_fd2,
                                                Pass_n_bytes tmp_fd2 target_fd (st_size st),
                                                Close_fd tmp_fd2, Close_fd target_fd,
                                                Conn_send_response RESPONSE_OK,
                                                audit_log ''PUT'' c 200,
                                                Unlink tmp, Writer_unlock lock], ht', Returned)))))))"

text \<open>The responses sent, the audit records written and the descriptors closed in a trace.\<close>

fun responses :: "event list \<Rightarrow> response list" where
  "responses [] = []"
| "responses (Conn_send_response r # es) = r # responses es"
| "responses (e # es) = responses es"

fun audits :: "event list \<Rightarrow> event list" where
  "audits [] = []"
| "audits (Audit m u s i # es) = Audit m u s i # audits es"
| "audits (e # es) = audits es"

fun closed_fds :: "event list \<Rightarrow> nat list" where
  "closed_fds [] = []"
| "closed_fds (Close_fd fd # es) = fd # closed_fds es"
| "closed_fds (e # es) = closed_fds es"

text \<open>
  The failures of \<^verbatim>\<open>handle_put\<close> after \<^verbatim>\<open>writer_lock\<close>: the target cannot be opened, the
  temporary file cannot be reopened, \<^verbatim>\<open>fstat\<close> fails, or the copy fails.
\<close>

definition put_fails_locked :: "put_env \<Rightarrow> bool" where
  "put_fails_locked env =
     (case put_open_target env of
        Inl e \<Rightarrow> True
      | Inr target_fd \<Rightarrow>
          put_open_tmp env = None \<or> put_fstat env = None \<or> put_pass_n_bytes env = - 1)"

definition put_failure_response :: "put_env \<Rightarrow> response" where
  "put_failure_response env =
     (case put_open_target env of
        Inl e \<Rightarrow> if e = EACCES \<or> e = EISDIR then RESPONSE_FORBIDDEN
                 else RESPONSE_INTERNAL_SERVER_ERROR
      | Inr target_fd \<Rightarrow> RESPONSE_INTERNAL_SERVER_ERROR)"

section \<open>Startup (main)\<close>

text \<open>
  The C library calls that \<^verbatim>\<open>main\<close> makes on its arguments, as the GNU C library on a
  64-bit system does them: \<^verbatim>\<open>isspace\<close> and \<^verbatim>\<open>isdigit\<close> in the C locale, \<^verbatim>\<open>atoi\<close>, \<^verbatim>\<open>strtoull\<close>
  in base 10 and \<^verbatim>\<open>getopt\<close> with the option string \<^verbatim>\<open>"t:"\<close>.
\<close>

definition isspace :: "char \<Rightarrow> bool" where
  "isspace c = (of_char c = (32::nat) \<or> (9 \<le> (of_char c :: nat) \<and> (of_char c :: nat) \<le> 13))"

definition isdigit :: "char \<Rightarrow> bool" where
  "isdigit c = (48 \<le> (of_char c :: nat) \<and> (of_char c :: nat) \<le> 57)"

fun digits_value :: "nat \<Rightarrow> string \<Rightarrow> nat" where
  "digits_value acc [] = acc"
| "digits_value acc (c # cs) = digits_value (acc * 10 + (of_char c - 48)) cs"

text \<open>
  The text after leading white space, whether it starts with a minus sign, and what
  follows the sign.
\<close>

definition skip_space :: "string \<Rightarrow> string" where
  "skip_space s = dropWhile isspace s"

definition negative :: "string \<Rightarrow> bool" where
  "negative s = (case s of [] \<Rightarrow> False | c # cs \<Rightarrow> c = CHR ''-'')"

definition skip_sign :: "string \<Rightarrow> string" where
  "skip_sign s =
     (case s of [] \<Rightarrow> [] | c # cs \<Rightarrow> if c = CHR ''-'' \<or> c = CHR ''+'' then cs else s)"

text \<open>
  \<^verbatim>\<open>atoi(nptr)\<close> as the GNU C library computes it, \<^verbatim>\<open>(int) strtol(nptr, NULL, 10)\<close>: \<^verbatim>\<open>strtol\<close>
  gives the value of the longest run of digits after white space and a sign (0 when there
  is none), kept within the range of a 64-bit \<^verbatim>\<open>long\<close>, and the conversion to the 32-bit
  \<^verbatim>\<open>int\<close> keeps the low 32 bits. (The C standard leaves a value outside \<^verbatim>\<open>int\<close> undefined.)
\<close>

definition LONG_MAX :: int where
  "LONG_MAX = 2 ^ 63 - 1"

definition strtol :: "string \<Rightarrow> int" where
  "strtol nptr =
     (let s = skip_space nptr;
          v = int (digits_value 0 (takeWhile isdigit (skip_sign s)));
          x = (if negative s then - v else v)
      in if LONG_MAX < x then LONG_MAX
         else if x < - LONG_MAX - 1 then - LONG_MAX - 1
         else x)"

definition int_of_long :: "int \<Rightarrow> int" where
  "int_of_long x = (x + 2 ^ 31) mod 2 ^ 32 - 2 ^ 31"

definition atoi :: "string \<Rightarrow> int" where
  "atoi nptr = int_of_long (strtol nptr)"

text \<open>
  \<^verbatim>\<open>strtoull(nptr, &endptr, 10)\<close> with a 64-bit \<^verbatim>\<open>unsigned long long\<close>: the result is the
  value and the text \<^verbatim>\<open>endptr\<close> points to. With no digits the value is 0 and \<^verbatim>\<open>endptr\<close> is
  \<^verbatim>\<open>nptr\<close>; a value that does not fit gives \<^verbatim>\<open>ULLONG_MAX\<close>; a minus sign negates the value
  in the unsigned type.
\<close>

definition ULLONG_MAX :: nat where
  "ULLONG_MAX = 2 ^ 64 - 1"

definition strtoull :: "string \<Rightarrow> nat \<times> string" where
  "strtoull nptr =
     (let s = skip_space nptr;
          ds = takeWhile isdigit (skip_sign s);
          v = digits_value 0 ds
      in if ds = [] then (0, nptr)
         else (if v > ULLONG_MAX then ULLONG_MAX
               else if negative s then (2 ^ 64 - v) mod 2 ^ 64
               else v,
               dropWhile isdigit (skip_sign s)))"

text \<open>
  What \<^verbatim>\<open>main\<close> and the library write to stderr, line by line: \<open>Warnx m\<close> is the line of
  \<^verbatim>\<open>warnx\<close> for the message \<open>m\<close> (the library puts the program's name, a colon and a space
  before it), \<open>Getopt_invalid_option c\<close> and \<open>Getopt_missing_argument c\<close> are the lines
  that \<^verbatim>\<open>getopt\<close> itself writes before it returns \<^verbatim>\<open>'?'\<close>, and \<open>Fprintf l\<close> is a line written
  with \<^verbatim>\<open>fprintf(stderr, ...)\<close>.
\<close>

datatype diagnostic =
    Warnx string
  | Getopt_invalid_option char
  | Getopt_missing_argument char
  | Fprintf string

text \<open>
  \<^verbatim>\<open>getopt(argc, argv, "t:")\<close> of the GNU C library. In place of \<^verbatim>\<open>optind\<close> and the reordering
  of \<^verbatim>\<open>argv\<close>, the state is the list of the words not yet scanned and the list of the
  operands passed over, in their order. An option word starts with \<^verbatim>\<open>-\<close> and has at least
  two characters; \<^verbatim>\<open>-t\<close> takes its argument from the rest of the word or else from the next
  word, whatever that is; every other option character gives \<^verbatim>\<open>'?'\<close>, as does \<^verbatim>\<open>-t\<close> as
  the last word. A word that is not an option is passed over and the scan goes on, unless
  \<open>posixly_correct\<close> (the environment variable \<^verbatim>\<open>POSIXLY_CORRECT\<close> is set), where the scan
  ends there. The scan also ends at \<^verbatim>\<open>--\<close> and after the last word. When it ends, \<^verbatim>\<open>getopt\<close>
  returns \<open>-1\<close> (\<open>Opt_end\<close>) and the words from \<^verbatim>\<open>argv[optind]\<close> on are the operands passed
  over and then the words not scanned: the third component of the result. (After \<^verbatim>\<open>'?'\<close>
  \<^verbatim>\<open>main\<close> returns, so the position inside an option word is not kept.)
\<close>

datatype getopt_result = Opt_end | Opt_t string | Opt_unknown char | Opt_missing char

fun getopt :: "bool \<Rightarrow> string list \<Rightarrow> string list \<Rightarrow> getopt_result \<times> string list \<times> string list" where
  "getopt posixly_correct [] skipped = (Opt_end, [], skipped)"
| "getopt posixly_correct (a # as) skipped =
     (if a = ''--'' then (Opt_end, [], skipped @ as)
      else if 2 \<le> length a \<and> a ! 0 = CHR ''-'' then
        (if a ! 1 = CHR ''t'' then
           (if 2 < length a then (Opt_t (drop 2 a), as, skipped)
            else
              (case as of
                 [] \<Rightarrow> (Opt_missing CHR ''t'', [], skipped)
               | b # bs \<Rightarrow> (Opt_t b, bs, skipped)))
         else (Opt_unknown (a ! 1), as, skipped))
      else if posixly_correct then (Opt_end, [], skipped @ a # as)
      else getopt posixly_correct as (skipped @ [a]))"

lemma getopt_Opt_t_shorter:
  "getopt posixly_correct unscanned skipped = (Opt_t optarg, unscanned', skipped') \<Longrightarrow>
   length unscanned' < length unscanned"
  by (induction posixly_correct unscanned skipped rule: getopt.induct)
     (auto split: if_splits list.splits)

definition DEFAULT_THREADS :: int where
  "DEFAULT_THREADS = 4"

definition EXIT_FAILURE :: int where
  "EXIT_FAILURE = 1"

text \<open>
  The loop \<^verbatim>\<open>while ((opt = getopt(argc, argv, "t:")) != -1)\<close> of \<^verbatim>\<open>main\<close>: it ends with the
  line \<^verbatim>\<open>getopt\<close> wrote when the default case returns \<^verbatim>\<open>EXIT_FAILURE\<close>, else with
  \<^verbatim>\<open>num_threads\<close> and the words from \<^verbatim>\<open>argv[optind]\<close> on.
\<close>

function option_loop ::
  "bool \<Rightarrow> string list \<Rightarrow> string list \<Rightarrow> int \<Rightarrow> diagnostic + int \<times> string list" where
  "option_loop posixly_correct unscanned skipped num_threads =
     (case getopt posixly_correct unscanned skipped of
        (Opt_end, unscanned', operands) \<Rightarrow> Inr (num_threads, operands)
      | (Opt_t optarg, unscanned', skipped') \<Rightarrow>
          option_loop posixly_correct unscanned' skipped' (atoi optarg)
      | (Opt_unknown c, unscanned', skipped') \<Rightarrow> Inl (Getopt_invalid_option c)
      | (Opt_missing c, unscanned', skipped') \<Rightarrow> Inl (Getopt_missing_argument c))"
  by pat_completeness auto
termination
  by (relation "measure (\<lambda>(posixly_correct, unscanned, skipped, num_threads). length unscanned)")
     (auto dest: getopt_Opt_t_shorter[OF sym])

declare option_loop.simps [simp del]

text \<open>
  How \<^verbatim>\<open>main\<close> ends:
  \<^item> \<open>Exit status lines\<close>: it returns the status after the lines were written to stderr;
  \<^item> \<open>Null_argument\<close>: no word is left at \<^verbatim>\<open>argv[optind]\<close>, which then is the NULL that ends
    \<^verbatim>\<open>argv\<close>, and \<^verbatim>\<open>main\<close> passes it to \<^verbatim>\<open>strtoull\<close>;
  \<^item> \<open>Undefined_thread_array n\<close>: after \<^verbatim>\<open>queue_new(num_threads)\<close> and \<^verbatim>\<open>hash_create()\<close> it
    declares \<^verbatim>\<open>pthread_t threads[num_threads]\<close> with a negative size \<open>n\<close>, undefined in C;
  \<^item> \<open>Serving n port\<close>: it has created \<open>n\<close> worker threads and accepts connections on the
    port for ever.

  \<open>listener_ok\<close> tells whether \<^verbatim>\<open>listener_init\<close> succeeds.
\<close>

datatype main_result =
    Exit int "diagnostic list"
  | Null_argument
  | Undefined_thread_array int
  | Serving int nat

definition program_name :: "string list \<Rightarrow> string" where
  "program_name argv = (case argv of [] \<Rightarrow> ''(null)'' | a # as \<Rightarrow> a)"

definition main :: "bool \<Rightarrow> bool \<Rightarrow> string list \<Rightarrow> main_result" where
  "main posixly_correct listener_ok argv =
     (if length argv < 2 then
        Exit EXIT_FAILURE
          [Warnx (''wrong arguments: '' @ program_name argv @ '' port_num''),
           Fprintf (''usage: '' @ program_name argv @ '' -t <thread count> <port>'')]
      else
        (case option_loop posixly_correct (tl argv) [] DEFAULT_THREADS of
           Inl d \<Rightarrow>
             Exit EXIT_FAILURE
               [d, Fprintf (''usage: '' @ program_name argv @ '' [-t threads] <port>'')]
         | Inr (num_threads, operands) \<Rightarrow>
             (case operands of
                [] \<Rightarrow> Null_argument
              | port_arg # others \<Rightarrow>
                  (let r = strtoull port_arg; port = fst r; endptr = snd r in
                   if endptr \<noteq> [] then Exit EXIT_FAILURE [Fprintf ''Invalid Port'']
                   else if port < 1 \<or> 65535 < port then Exit EXIT_FAILURE [Fprintf ''Invalid Port'']
                   else if \<not> listener_ok then Exit EXIT_FAILURE [Fprintf ''Invalid Port'']
                   else if num_threads < 0 then Undefined_thread_array num_threads
                   else Serving num_threads port))))"

section \<open>Teardown on the heap (cleanup_file_locks, list_destroy, hash_destroy)\<close>

text \<open>
  The teardown frees what the table is made of, so here the table lives in a store: an
  address holds a live object, or was freed, or was never allocated. An access that C
  leaves undefined is a \<open>fault\<close>, and the call stops at the first one.
\<close>

datatype fault =
    Null_dereference
  | Use_after_free nat
  | Double_free nat
  | Invalid_pointer nat

datatype object =
    Lock_obj
  | Node_obj item "nat option"
  | LL_obj "nat option"
  | Hashtable_obj "nat \<Rightarrow> nat option"

datatype cell = Live object | Freed

type_synonym heap = "nat \<Rightarrow> cell option"

text \<open>
  \<open>Node_obj data next\<close> is a \<^verbatim>\<open>Node\<close>, \<open>LL_obj head\<close> an \<^verbatim>\<open>LL\<close>, and \<open>Hashtable_obj table\<close> a
  \<^verbatim>\<open>Hashtable\<close> whose slot \<open>i < TABLE_SIZE\<close> is \<open>table i\<close>.
\<close>

definition load :: "heap \<Rightarrow> nat option \<Rightarrow> fault + object" where
  "load h p =
     (case p of
        None \<Rightarrow> Inl Null_dereference
      | Some a \<Rightarrow>
          (case h a of
             None \<Rightarrow> Inl (Invalid_pointer a)
           | Some Freed \<Rightarrow> Inl (Use_after_free a)
           | Some (Live obj) \<Rightarrow> Inr obj))"

definition load_Node :: "heap \<Rightarrow> nat option \<Rightarrow> fault + item \<times> nat option" where
  "load_Node h p =
     (case load h p of
        Inl f \<Rightarrow> Inl f
      | Inr (Node_obj d n) \<Rightarrow> Inr (d, n)
      | Inr obj \<Rightarrow> Inl (case p of None \<Rightarrow> Null_dereference | Some a \<Rightarrow> Invalid_pointer a))"

definition load_LL :: "heap \<Rightarrow> nat option \<Rightarrow> fault + nat option" where
  "load_LL h p =
     (case load h p of
        Inl f \<Rightarrow> Inl f
      | Inr (LL_obj hd_ptr) \<Rightarrow> Inr hd_ptr
      | Inr obj \<Rightarrow> Inl (case p of None \<Rightarrow> Null_dereference | Some a \<Rightarrow> Invalid_pointer a))"

definition load_Hashtable :: "heap \<Rightarrow> nat option \<Rightarrow> fault + (nat \<Rightarrow> nat option)" where
  "load_Hashtable h p =
     (case load h p of
        Inl f \<Rightarrow> Inl f
      | Inr (Hashtable_obj t) \<Rightarrow> Inr t
      | Inr obj \<Rightarrow> Inl (case p of None \<Rightarrow> Null_dereference | Some a \<Rightarrow> Invalid_pointer a))"

text \<open>\<^verbatim>\<open>free(p)\<close>: nothing for NULL; a fault for an address already freed.\<close>

definition free :: "heap \<Rightarrow> nat option \<Rightarrow> fault + heap" where
  "free h p =
     (case p of
        None \<Rightarrow> Inr h
      | Some a \<Rightarrow>
          (case h a of
             None \<Rightarrow> Inl (Invalid_pointer a)
           | Some Freed \<Rightarrow> Inl (Double_free a)
           | Some (Live obj) \<Rightarrow> Inr (h(a \<mapsto> Freed))))"

text \<open>
  Modelled from the spec: \<^verbatim>\<open>rwlock_delete\<close> is declared in rwlock.h, which is not among
  the sources. The spec: the teardown must "release each Resource Lock's resources".
  \<open>rwlock_delete h l\<close> releases the lock at \<open>l\<close>; releasing it a second time is a fault.
  (The C function gets the address of the caller's pointer; what it stores there is
  written out at each call.)
\<close>

definition rwlock_delete :: "heap \<Rightarrow> nat \<Rightarrow> fault + heap" where
  "rwlock_delete h l =
     (case h l of
        None \<Rightarrow> Inl (Invalid_pointer l)
      | Some Freed \<Rightarrow> Inl (Double_free l)
      | Some (Live Lock_obj) \<Rightarrow> Inr (h(l \<mapsto> Freed))
      | Some (Live obj) \<Rightarrow> Inl (Invalid_pointer l))"

text \<open>
  The loop of \<^verbatim>\<open>list_destroy\<close>: read \<^verbatim>\<open>current->next\<close>, delete the lock if
  \<^verbatim>\<open>current->data.id\<close> is not NULL, free the node, go on with the next one. (The node is
  freed at once, so the NULL that \<^verbatim>\<open>rwlock_delete\<close> may store in its \<^verbatim>\<open>id\<close> is not kept.)
  A loop that does not end has no result: \<open>None\<close>.
\<close>

partial_function (option) list_destroy_loop :: "heap \<Rightarrow> nat option \<Rightarrow> (fault + heap) option" where
  "list_destroy_loop h current =
     (case current of
        None \<Rightarrow> Some (Inr h)
      | Some a \<Rightarrow>
          (case load_Node h current of
             Inl f \<Rightarrow> Some (Inl f)
           | Inr node \<Rightarrow>
               (case (case item_id (fst node) of None \<Rightarrow> Inr h | Some l \<Rightarrow> rwlock_delete h l) of
                  Inl f \<Rightarrow> Some (Inl f)
                | Inr h1 \<Rightarrow>
                    (case free h1 current of
                       Inl f \<Rightarrow> Some (Inl f)
                     | Inr h2 \<Rightarrow> list_destroy_loop h2 (snd node)))))"

text \<open>
  \<^verbatim>\<open>list_destroy(LL **ll)\<close>, given the pointer \<open>ll\<close> that \<^verbatim>\<open>*ll\<close> holds: it reads the head,
  runs the loop and frees the \<^verbatim>\<open>LL\<close>. Its last statement \<^verbatim>\<open>*ll = NULL\<close> writes to the
  caller's variable and is written out at each call.
\<close>

definition list_destroy :: "heap \<Rightarrow> nat option \<Rightarrow> (fault + heap) option" where
  "list_destroy h ll =
     (case load_LL h ll of
        Inl f \<Rightarrow> Some (Inl f)
      | Inr head \<Rightarrow>
          (case list_destroy_loop h head of
             None \<Rightarrow> None
           | Some (Inl f) \<Rightarrow> Some (Inl f)
           | Some (Inr h1) \<Rightarrow> Some (free h1 ll)))"

text \<open>Storing a pointer into slot \<open>i\<close> of the table at \<open>t\<close>.\<close>

definition store_slot :: "heap \<Rightarrow> nat option \<Rightarrow> nat \<Rightarrow> nat option \<Rightarrow> fault + heap" where
  "store_slot h t i v =
     (case load_Hashtable h t of
        Inl f \<Rightarrow> Inl f
      | Inr table \<Rightarrow>
          (case t of
             None \<Rightarrow> Inl Null_dereference
           | Some a \<Rightarrow> Inr (h(a \<mapsto> Live (Hashtable_obj (table(i := v)))))))"

text \<open>
  \<^verbatim>\<open>hash_destroy(Hashtable **ht)\<close>. Its argument is \<open>None\<close> when \<^verbatim>\<open>ht\<close> itself is NULL, and
  \<open>Some t\<close> when \<^verbatim>\<open>ht\<close> points to a variable that holds the pointer \<open>t\<close>. The loop calls
  \<^verbatim>\<open>list_destroy(&(*ht)->table[i])\<close> for every slot, and \<^verbatim>\<open>list_destroy\<close> then stores NULL in
  that slot; after the loop the table is freed and the variable set to NULL. The result
  is the store and the variable's new value.
\<close>

function hash_destroy_loop :: "heap \<Rightarrow> nat option \<Rightarrow> nat \<Rightarrow> (fault + heap) option" where
  "hash_destroy_loop h t i =
     (if i < TABLE_SIZE then
        (case load_Hashtable h t of
           Inl f \<Rightarrow> Some (Inl f)
         | Inr table \<Rightarrow>
             (case list_destroy h (table i) of
                None \<Rightarrow> None
              | Some (Inl f) \<Rightarrow> Some (Inl f)
              | Some (Inr h1) \<Rightarrow>
                  (case store_slot h1 t i None of
                     Inl f \<Rightarrow> Some (Inl f)
                   | Inr h2 \<Rightarrow> hash_destroy_loop h2 t (i + 1))))
      else Some (Inr h))"
  by pat_completeness auto
termination
  by (relation "measure (\<lambda>(h, t, i). TABLE_SIZE - i)") auto

declare hash_destroy_loop.simps [simp del]

definition hash_destroy :: "heap \<Rightarrow> nat option option \<Rightarrow> (fault + heap \<times> nat option) option" where
  "hash_destroy h ht =
     (case ht of
        None \<Rightarrow> Some (Inl Null_dereference)
      | Some t \<Rightarrow>
          (case hash_destroy_loop h t 0 of
             None \<Rightarrow> None
           | Some (Inl f) \<Rightarrow> Some (Inl f)
           | Some (Inr h1) \<Rightarrow>
               (case free h1 t of
                  Inl f \<Rightarrow> Some (Inl f)
                | Inr h2 \<Rightarrow> Some (Inr (h2, None)))))"

text \<open>
  The inner loop of \<^verbatim>\<open>cleanup_file_locks\<close>: it copies \<^verbatim>\<open>current->data.id\<close> into the local
  \<^verbatim>\<open>lock\<close>, calls \<^verbatim>\<open>rwlock_delete(&lock)\<close> if it is not NULL, and goes on with
  \<^verbatim>\<open>current->next\<close>. Whatever \<^verbatim>\<open>rwlock_delete\<close> stores goes to the local variable: the node
  keeps its \<^verbatim>\<open>id\<close>.
\<close>

partial_function (option) cleanup_walk :: "heap \<Rightarrow> nat option \<Rightarrow> (fault + heap) option" where
  "cleanup_walk h current =
     (case current of
        None \<Rightarrow> Some (Inr h)
      | Some a \<Rightarrow>
          (case load_Node h current of
             Inl f \<Rightarrow> Some (Inl f)
           | Inr node \<Rightarrow>
               (case (case item_id (fst node) of None \<Rightarrow> Inr h | Some l \<Rightarrow> rwlock_delete h l) of
                  Inl f \<Rightarrow> Some (Inl f)
                | Inr h1 \<Rightarrow>
                    (case load_Node h1 current of
                       Inl f \<Rightarrow> Some (Inl f)
                     | Inr node1 \<Rightarrow> cleanup_walk h1 (snd node1)))))"

text \<open>
  The outer loop: for every slot, the local \<^verbatim>\<open>list\<close> gets \<^verbatim>\<open>file_lock_ht->table[i]\<close>, the
  chain is walked, and \<^verbatim>\<open>list_destroy(&list)\<close> is called; the NULL it stores goes to the
  local \<^verbatim>\<open>list\<close>, and the slot keeps its pointer.
\<close>

function cleanup_loop :: "heap \<Rightarrow> nat option \<Rightarrow> nat \<Rightarrow> (fault + heap) option" where
  "cleanup_loop h t i =
     (if i < TABLE_SIZE then
        (case load_Hashtable h t of
           Inl f \<Rightarrow> Some (Inl f)
         | Inr table \<Rightarrow>
             (case load_LL h (table i) of
                Inl f \<Rightarrow> Some (Inl f)
              | Inr head \<Rightarrow>
                  (case cleanup_walk h head of
                     None \<Rightarrow> None
                   | Some (Inl f) \<Rightarrow> Some (Inl f)
                   | Some (Inr h1) \<Rightarrow>
                       (case list_destroy h1 (table i) of
                          None \<Rightarrow> None
                        | Some (Inl f) \<Rightarrow> Some (Inl f)
                        | Some (Inr h2) \<Rightarrow> cleanup_loop h2 t (i + 1)))))
      else Some (Inr h))"
  by pat_completeness auto
termination
  by (relation "measure (\<lambda>(h, t, i). TABLE_SIZE - i)") auto

declare cleanup_loop.simps [simp del]

text \<open>
  \<^verbatim>\<open>cleanup_file_locks\<close> on the global \<^verbatim>\<open>file_lock_ht\<close> and the store. (The mutex it holds
  around the loops has no part in what is freed.)
\<close>

record globals =
  file_lock_ht :: "nat option"
  store :: heap

definition cleanup_file_locks :: "globals \<Rightarrow> (fault + globals) option" where
  "cleanup_file_locks g =
     (if file_lock_ht g = None then Some (Inr g)
      else
        (case cleanup_loop (store g) (file_lock_ht g) 0 of
           None \<Rightarrow> None
         | Some (Inl f) \<Rightarrow> Some (Inl f)
         | Some (Inr h1) \<Rightarrow>
             (case hash_destroy h1 (Some (file_lock_ht g)) of
                None \<Rightarrow> None
              | Some (Inl f) \<Rightarrow> Some (Inl f)
              | Some (Inr r) \<Rightarrow> Some (Inr \<lparr>file_lock_ht = snd r, store = fst r\<rparr>))))"

text \<open>
  A registry with one lock: the table at address 1000, the chain of slot \<open>i\<close> at address
  \<open>i\<close>, and in the chain of slot 0 one node (address 200) whose item holds the lock at
  address 300. And the registry right after \<^verbatim>\<open>hash_create\<close>, with every chain empty.
\<close>

definition heap_one_lock :: heap where
  "heap_one_lock =
     (\<lambda>a. if a < TABLE_SIZE then Some (Live (LL_obj (if a = 0 then Some 200 else None)))
          else if a = 200 then
            Some (Live (Node_obj \<lparr>item_key = ''a.txt'', item_id = Some 300\<rparr> None))
          else if a = 300 then Some (Live Lock_obj)
          else if a = 1000 then
            Some (Live (Hashtable_obj (\<lambda>i. if i < TABLE_SIZE then Some i else None)))
          else None)"

definition registry_one_lock :: globals where
  "registry_one_lock = \<lparr>file_lock_ht = Some 1000, store = heap_one_lock\<rparr>"

definition heap_empty_table :: heap where
  "heap_empty_table =
     (\<lambda>a. if a < TABLE_SIZE then Some (Live (LL_obj None))
          else if a = 1000 then
            Some (Live (Hashtable_obj (\<lambda>i. if i < TABLE_SIZE then Some i else None)))
          else None)"

definition registry_empty :: globals where
  "registry_empty = \<lparr>file_lock_ht = Some 1000, store = heap_empty_table\<rparr>"

section \<open>Chains and the table: what a lookup finds\<close>


lemma list_find_cmp_Some:
  "list_find l cmp s = Some p \<Longrightarrow> p < length l \<and> item_key (l ! p) = item_key s"
proof (induction l arbitrary: p)
  case Nil
  then show ?case by simp
next
  case (Cons n ns)
  then show ?case by (auto simp: cmp_def split: if_splits option.splits)
qed

lemma list_find_cmp_keys:
  "map item_key l' = map item_key l \<Longrightarrow> item_key s' = item_key s \<Longrightarrow>
   list_find l' cmp s' = list_find l cmp s"
proof (induction l arbitrary: l')
  case Nil
  then show ?case by simp
next
  case (Cons n ns)
  then obtain n' ns' where l': "l' = n' # ns'" by (cases l') auto
  with Cons.prems Cons.IH[of ns'] show ?case by (simp add: cmp_def)
qed

lemma bucket_less: "hash key mod TABLE_SIZE < TABLE_SIZE"
  by (simp add: TABLE_SIZE_def)

lemma hash_get_Some:
  "hash_get hash ht k = Some loc \<Longrightarrow>
   fst loc = hash k mod TABLE_SIZE \<and> snd loc < length (ht ! fst loc) \<and>
   item_key (ht ! fst loc ! snd loc) = snprintf_key k"
  using list_find_cmp_Some
  by (fastforce simp: hash_get_def Let_def split: option.splits)

lemma map_keys_store:
  "p < length l \<Longrightarrow> map item_key (l[p := (l ! p)\<lparr>item_id := v\<rparr>]) = map item_key l"
  by (simp add: map_update list_update_same_conv)

lemma upd_key_same: "j < length l \<Longrightarrow> (map item_key l)[j := item_key (l ! j)] = map item_key l"
  by (simp add: list_update_same_conv)

lemma hash_get_store_id:
  assumes "hash_get hash ht k = Some loc"
  shows "hash_get hash (store_id ht loc v) k' = hash_get hash ht k'"
proof -
  have b: "snd loc < length (ht ! fst loc)" using hash_get_Some[OF assms] by blast
  have "map item_key (store_id ht loc v ! i) = map item_key (ht ! i)" for i
  proof (cases "i = fst loc \<and> i < length ht")
    case True
    then show ?thesis using b by (simp add: store_id_def map_keys_store)
  next
    case False
    then show ?thesis by (cases "fst loc < length ht") (auto simp: store_id_def list_update_beyond)
  qed
  then have "list_find (store_id ht loc v ! i) cmp s = list_find (ht ! i) cmp s" for i s
    by (rule list_find_cmp_keys) simp
  then show ?thesis
    by (simp add: hash_get_def Let_def)
qed

lemma load_store_id:
  assumes "hash_get hash ht k = Some loc" and "length ht = TABLE_SIZE"
  shows "load_id (store_id ht loc v) loc = v"
proof -
  from hash_get_Some[OF assms(1)] have "fst loc < length ht" "snd loc < length (ht ! fst loc)"
    using assms(2) bucket_less[of hash k] by auto
  then show ?thesis by (simp add: load_id_def store_id_def)
qed

lemma store_id_lengths:
  "map length (store_id ht loc v) = map length ht"
  by (cases "fst loc < length ht") (simp_all add: store_id_def map_update list_update_same_conv list_update_beyond)

lemma store_id_keys:
  assumes "hash_get hash ht k = Some loc"
  shows "map (map item_key) (store_id ht loc v) = map (map item_key) ht"
proof (cases "fst loc < length ht")
  case True
  have b: "snd loc < length (ht ! fst loc)" using hash_get_Some[OF assms] by blast
  show ?thesis using True b
    by (simp add: store_id_def map_update list_update_same_conv upd_key_same)
next
  case False
  then show ?thesis by (simp add: store_id_def list_update_beyond)
qed

lemma hash_put_existing:
  "hash_get hash ht k = Some loc \<Longrightarrow> hash_put hash m ht k v = (True, store_id ht loc v)"
  by (simp add: hash_put_def)

lemma hash_put_new:
  "hash_get hash ht k = None \<Longrightarrow>
   hash_put hash m ht k v =
     (m, if m then ht[hash k mod TABLE_SIZE :=
                   \<lparr>item_key = snprintf_key k, item_id = v\<rparr> # ht ! (hash k mod TABLE_SIZE)]
         else ht)"
  by (simp add: hash_put_def list_add_def Let_def)

lemma hash_put_length: "length (snd (hash_put hash m ht k v)) = length ht"
  by (simp add: hash_put_def store_id_def list_add_def Let_def split: option.splits)

lemma hash_get_prepend_same:
  assumes "length ht = TABLE_SIZE"
  shows "hash_get hash (ht[hash k mod TABLE_SIZE :=
           \<lparr>item_key = snprintf_key k, item_id = v\<rparr> # ht ! (hash k mod TABLE_SIZE)]) k
         = Some (hash k mod TABLE_SIZE, 0)"
  using assms bucket_less[of hash k] by (simp add: hash_get_def cmp_def)

lemma hash_get_prepend_other:
  assumes "length ht = TABLE_SIZE"
    and "hash k' mod TABLE_SIZE \<noteq> hash k mod TABLE_SIZE \<or> snprintf_key k' \<noteq> snprintf_key k"
  shows "hash_get hash (ht[hash k mod TABLE_SIZE :=
           \<lparr>item_key = snprintf_key k, item_id = v\<rparr> # ht ! (hash k mod TABLE_SIZE)]) k'
         = map_option (\<lambda>loc. if fst loc = hash k mod TABLE_SIZE then (fst loc, Suc (snd loc)) else loc)
             (hash_get hash ht k')"
  using assms bucket_less[of hash k]
  by (cases "hash k' mod TABLE_SIZE = hash k mod TABLE_SIZE")
     (auto simp: hash_get_def cmp_def Let_def split: option.splits)

lemma hash_put_found:
  assumes "length ht = TABLE_SIZE" and "hash_put hash m ht k v = (True, ht')"
  shows "found hash ht' k v"
proof (cases "hash_get hash ht k")
  case None
  with assms(2) have m and ht': "ht' = ht[hash k mod TABLE_SIZE :=
           \<lparr>item_key = snprintf_key k, item_id = v\<rparr> # ht ! (hash k mod TABLE_SIZE)]"
    by (auto simp: hash_put_new split: if_splits)
  show ?thesis unfolding ht' found_def hash_get_prepend_same[OF assms(1)]
    using assms(1) bucket_less[of hash k] by (simp add: load_id_def)
next
  case (Some loc)
  with assms(2) have ht': "ht' = store_id ht loc v" by (simp add: hash_put_existing)
  show ?thesis unfolding ht' found_def hash_get_store_id[OF Some] Some
    by (simp add: load_store_id[OF Some assms(1)])
qed

lemma found_load: "found hash ht k v \<Longrightarrow> \<exists>loc. hash_get hash ht k = Some loc \<and> load_id ht loc = v"
  by (auto simp: found_def split: option.splits)

lemma hash_create_table: "hash_create True = Some (replicate TABLE_SIZE [])"
  by (simp add: hash_create_def)

lemma hash_get_empty: "hash_get hash (replicate TABLE_SIZE []) k = None"
  using bucket_less[of hash k] by (simp add: hash_get_def)

lemma hash_put_keeps_absent:
  assumes len: "length ht = TABLE_SIZE" and k: "hash_get hash ht k = None"
    and ne: "snprintf_key k' \<noteq> snprintf_key k"
  shows "hash_get hash (snd (hash_put hash m ht k' v)) k = None"
proof (cases "hash_get hash ht k'")
  case None
  have "snprintf_key k \<noteq> snprintf_key k'" using ne by simp
  then show ?thesis using k hash_get_prepend_other[OF len, of hash k k' v]
    by (simp add: hash_put_new[OF None])
next
  case (Some loc)
  then show ?thesis using k by (simp add: hash_put_existing hash_get_store_id)
qed


lemma hash_puts_keep_absent:
  "length ht = TABLE_SIZE \<Longrightarrow> hash_get hash ht k = None \<Longrightarrow>
   \<forall>p \<in> set ps. snprintf_key (fst (snd p)) \<noteq> snprintf_key k \<Longrightarrow>
   hash_get hash (hash_puts hash ht ps) k = None"
proof (induction ps arbitrary: ht)
  case Nil
  then show ?case by simp
next
  case (Cons p ps)
  have "hash_get hash (snd (hash_put hash (fst p) ht (fst (snd p)) (snd (snd p)))) k = None"
    using Cons.prems by (intro hash_put_keeps_absent) simp_all
  then show ?case using Cons.IH Cons.prems by (simp add: hash_put_length)
qed

lemma snprintf_key_short: "length k < KEY_SIZE \<Longrightarrow> snprintf_key k = k"
  by (simp add: snprintf_key_def KEY_SIZE_def)

text \<open>
  Whatever the string hash is, two different keys can share an entry: among the 129 keys
  made of 254 times \<^verbatim>\<open>a\<close> and then 1 to 129 times \<^verbatim>\<open>b\<close>, two fall into the same bucket,
  and all of them are stored as the same 254 bytes.
\<close>

lemma hash_get_alias_any_hash:
  "\<exists>k1 k2. k1 \<noteq> k2 \<and>
      hash_get hash (snd (hash_put hash True (replicate TABLE_SIZE []) k1 v)) k2 \<noteq> None"
proof -
  define key where "key = (\<lambda>n::nat. replicate 254 CHR ''a'' @ replicate (Suc n) CHR ''b'')"
  define f where "f = (\<lambda>n. hash (key n) mod TABLE_SIZE)"
  have "f ` {..TABLE_SIZE} \<subseteq> {..<TABLE_SIZE}" by (auto simp: f_def bucket_less)
  then have "card (f ` {..TABLE_SIZE}) \<le> card {..<TABLE_SIZE}" by (intro card_mono) simp_all
  then have "card (f ` {..TABLE_SIZE}) < card {..TABLE_SIZE}" by simp
  then have "\<not> inj_on f {..TABLE_SIZE}" by (rule pigeonhole)
  then obtain i j where ij: "i \<noteq> j" "f i = f j" by (auto simp: inj_on_def)
  have ne: "key i \<noteq> key j"
  proof
    assume "key i = key j"
    then have "length (key i) = length (key j)" by simp
    then show False using ij(1) by (simp add: key_def)
  qed
  have sk: "snprintf_key (key n) = replicate 254 CHR ''a''" for n
    by (simp add: snprintf_key_def KEY_SIZE_def key_def)
  have p: "hash_put hash True (replicate TABLE_SIZE []) (key i) v =
       (True, (replicate TABLE_SIZE [])[f i := [\<lparr>item_key = replicate 254 CHR ''a'', item_id = v\<rparr>]])"
    using hash_put_new[OF hash_get_empty, of hash True "key i" v] bucket_less[of hash "key i"]
    by (simp add: sk f_def)
  have "hash_get hash ((replicate TABLE_SIZE [])[f i := [\<lparr>item_key = replicate 254 CHR ''a'', item_id = v\<rparr>]]) (key j)
      = Some (f i, 0)"
    using ij(2) bucket_less[of hash "key i"] by (simp add: hash_get_def sk f_def cmp_def)
  with p ne show ?thesis by (intro exI[of _ "key i"] exI[of _ "key j"]) simp
qed


section \<open>The registry returns one lock per path\<close>

lemma get_file_lock_found:
  "found hash ht p v \<Longrightarrow> get_file_lock hash n m ht p = (v, ht, [Mutex_lock, Mutex_unlock])"
  by (auto simp: found_def get_file_lock_def split: option.splits)

lemma get_file_lock_length:
  "length (fst (snd (get_file_lock hash n m ht p))) = length ht"
  by (simp add: get_file_lock_def Let_def hash_put_length split: option.splits)

lemma get_file_lock_success_found:
  assumes "length ht = TABLE_SIZE" and "get_file_lock hash n m ht p = (Some l, ht', ev)"
  shows "found hash ht' p (Some l)"
proof (cases "hash_get hash ht p")
  case None
  with assms(2) have "hash_put hash m ht p (Some l) = (True, ht')"
    by (auto simp: get_file_lock_def Let_def split: option.splits if_splits intro: prod_eqI)
  then show ?thesis by (rule hash_put_found[OF assms(1)])
next
  case (Some loc)
  with assms(2) show ?thesis by (auto simp: get_file_lock_def found_def)
qed

lemma found_prepend:
  assumes len: "length ht = TABLE_SIZE" and f: "found hash ht p v" and q: "hash_get hash ht q = None"
  shows "found hash (ht[hash q mod TABLE_SIZE :=
           \<lparr>item_key = snprintf_key q, item_id = w\<rparr> # ht ! (hash q mod TABLE_SIZE)]) p v"
proof -
  from f obtain loc where loc: "hash_get hash ht p = Some loc" "load_id ht loc = v"
    by (auto dest: found_load)
  have ne: "hash p mod TABLE_SIZE \<noteq> hash q mod TABLE_SIZE \<or> snprintf_key p \<noteq> snprintf_key q"
  proof (rule ccontr)
    assume "\<not> ?thesis"
    then have "hash_get hash ht p = hash_get hash ht q" by (simp add: hash_get_def)
    with loc q show False by simp
  qed
  have fl: "fst loc < length ht" using hash_get_Some[OF loc(1)] len bucket_less[of hash p] by simp
  show ?thesis
    unfolding found_def hash_get_prepend_other[OF len ne] loc
    using loc(2) fl by (auto simp: load_id_def)
qed

lemma get_file_lock_keeps_found:
  assumes len: "length ht = TABLE_SIZE" and f: "found hash ht p v"
  shows "found hash (fst (snd (get_file_lock hash n m ht q))) p v"
proof (cases "hash_get hash ht q")
  case None
  show ?thesis
  proof (cases "n \<noteq> None \<and> m")
    case True
    then obtain l where n: "n = Some l" by auto
    show ?thesis using True found_prepend[OF len f None]
      by (simp add: get_file_lock_def n None hash_put_new Let_def)
  next
    case False
    then show ?thesis using f
      by (auto simp: get_file_lock_def None hash_put_new Let_def split: option.splits)
  qed
next
  case (Some loc)
  then show ?thesis using f by (simp add: get_file_lock_def)
qed

lemma get_file_lock_calls_length:
  "length (get_file_lock_calls hash ht cs) = length ht"
  by (induction cs arbitrary: ht) (simp_all add: get_file_lock_length)

lemma get_file_lock_calls_keep_found:
  "length ht = TABLE_SIZE \<Longrightarrow> found hash ht p v \<Longrightarrow> found hash (get_file_lock_calls hash ht cs) p v"
proof (induction cs arbitrary: ht)
  case Nil
  then show ?case by simp
next
  case (Cons c cs)
  show ?case
    using Cons.IH[OF _ get_file_lock_keeps_found[OF Cons.prems]] Cons.prems(1)
    by (simp add: get_file_lock_length)
qed

text \<open>
  Claim C1. \<^verbatim>\<open>get_file_lock\<close> looks the path up in the table. If \<^verbatim>\<open>hash_get\<close> finds an entry,
  the lock stored there is returned and the table is left as it is. If it finds none and
  both the construction of the lock and the insertion succeed, the new lock is put at the
  head of the path's chain and returned. And once a call has returned a lock for a path,
  every later call with that path, after any calls for any paths, returns the same lock:
  two calls with the same path that both succeed return the identical lock. (The mutex
  is held from the first statement of \<^verbatim>\<open>get_file_lock\<close> to each return, so calls from several
  threads take effect one after another, as in this run of calls.)
\<close>

theorem get_file_lock_same_instance:
  assumes "length ht = TABLE_SIZE"
  shows
    "(\<forall>loc. hash_get hash ht path = Some loc \<longrightarrow>
        get_file_lock hash new_lock ok ht path = (load_id ht loc, ht, [Mutex_lock, Mutex_unlock])) \<and>
     (\<forall>l. hash_get hash ht path = None \<and> new_lock = Some l \<and> ok \<longrightarrow>
        get_file_lock hash new_lock ok ht path =
          (Some l,
           ht[hash path mod TABLE_SIZE :=
                \<lparr>item_key = snprintf_key path, item_id = Some l\<rparr> # ht ! (hash path mod TABLE_SIZE)],
           [Mutex_lock, Rwlock_new (Some l), Mutex_unlock])) \<and>
     (\<forall>l ht1 ev1. get_file_lock hash new_lock ok ht path = (Some l, ht1, ev1) \<longrightarrow>
        (\<forall>cs new2 ok2.
           fst (get_file_lock hash new2 ok2 (get_file_lock_calls hash ht1 cs) path) = Some l))"
proof (intro conjI allI impI)
  fix loc assume "hash_get hash ht path = Some loc"
  then show "get_file_lock hash new_lock ok ht path = (load_id ht loc, ht, [Mutex_lock, Mutex_unlock])"
    by (simp add: get_file_lock_def)
next
  fix l assume "hash_get hash ht path = None \<and> new_lock = Some l \<and> ok"
  then show "get_file_lock hash new_lock ok ht path =
          (Some l,
           ht[hash path mod TABLE_SIZE :=
                \<lparr>item_key = snprintf_key path, item_id = Some l\<rparr> # ht ! (hash path mod TABLE_SIZE)],
           [Mutex_lock, Rwlock_new (Some l), Mutex_unlock])"
    by (simp add: get_file_lock_def hash_put_new Let_def)
next
  fix l ht1 ev1 cs new2 ok2
  assume a: "get_file_lock hash new_lock ok ht path = (Some l, ht1, ev1)"
  have len1: "length ht1 = TABLE_SIZE"
    using get_file_lock_length[of hash new_lock ok ht path] a assms by simp
  have "found hash ht1 path (Some l)" by (rule get_file_lock_success_found[OF assms a])
  then have "found hash (get_file_lock_calls hash ht1 cs) path (Some l)"
    by (rule get_file_lock_calls_keep_found[OF len1])
  then show "fst (get_file_lock hash new2 ok2 (get_file_lock_calls hash ht1 cs) path) = Some l"
    by (simp add: get_file_lock_found)
qed

text \<open>
  The theorem at work: on the table that \<^verbatim>\<open>hash_create\<close> gives, the first call for the path
  \<^verbatim>\<open>a\<close> creates the lock at address 10; after a call for the path \<^verbatim>\<open>b\<close>, a call for \<^verbatim>\<open>a\<close>
  that could create the lock 30 returns the lock 10.
\<close>

theorem get_file_lock_same_instance_witness:
  "length (replicate TABLE_SIZE ([]::LL)) = TABLE_SIZE \<and>
   get_file_lock hash_sum (Some 10) True (replicate TABLE_SIZE []) ''a'' =
     (Some 10, (replicate TABLE_SIZE [])[97 := [\<lparr>item_key = ''a'', item_id = Some 10\<rparr>]],
      [Mutex_lock, Rwlock_new (Some 10), Mutex_unlock]) \<and>
   fst (get_file_lock hash_sum (Some 30) True
          (get_file_lock_calls hash_sum
             ((replicate TABLE_SIZE [])[97 := [\<lparr>item_key = ''a'', item_id = Some 10\<rparr>]])
             [(Some 20, True, ''b'')])
          ''a'') = Some 10"
proof -
  let ?e = "replicate TABLE_SIZE ([]::LL)"
  have len: "length ?e = TABLE_SIZE" by simp
  have h: "hash_sum ''a'' mod 128 = 97" by (simp add: hash_sum_def)
  have sk: "snprintf_key ''a'' = ''a''" by (simp add: snprintf_key_def KEY_SIZE_def)
  note t = get_file_lock_same_instance[OF len, where hash = hash_sum and path = "''a''"
      and new_lock = "Some 10" and ok = True]
  have c1: "get_file_lock hash_sum (Some 10) True ?e ''a'' =
     (Some 10, ?e[97 := [\<lparr>item_key = ''a'', item_id = Some 10\<rparr>]],
      [Mutex_lock, Rwlock_new (Some 10), Mutex_unlock])"
    using t hash_get_empty[of hash_sum "''a''"] by (simp add: h sk TABLE_SIZE_def)
  have c2: "fst (get_file_lock hash_sum (Some 30) True
          (get_file_lock_calls hash_sum (?e[97 := [\<lparr>item_key = ''a'', item_id = Some 10\<rparr>]])
             [(Some 20, True, ''b'')]) ''a'') = Some 10"
    using t c1 by blast
  show ?thesis using len c1 c2 by simp
qed


section \<open>Insertion and lookup in the hash table\<close>

text \<open>
  Claim C3, as amended. In a table of \<open>TABLE_SIZE\<close> chains:
  \<^item> \<^verbatim>\<open>hash_put\<close> on a key that \<^verbatim>\<open>hash_get\<close> finds stores the value in the entry found;
    the chains keep their keys, so no entry is added;
  \<^item> on a key that \<^verbatim>\<open>hash_get\<close> does not find, it puts a new entry at the head of the
    key's chain when the allocation succeeds, and returns false and changes nothing when
    it fails;
  \<^item> after a successful put of a key, \<^verbatim>\<open>hash_get\<close> on that key leads to the value put;
    after two successful puts of a key it leads to the second value, and the second put
    added no entry;
  \<^item> starting from the table of \<^verbatim>\<open>hash_create\<close>, \<^verbatim>\<open>hash_get\<close> returns NULL for a key
    whose first 254 bytes differ from the first 254 bytes of every key that was put; in
    particular for a key that was never put, when all the keys are at most 254 bytes
    long.
\<close>

theorem hash_put_get_latest:
  assumes "length ht = TABLE_SIZE"
  shows
    "(\<forall>loc. hash_get hash ht k = Some loc \<longrightarrow>
        hash_put hash m ht k v = (True, store_id ht loc v) \<and>
        map (map item_key) (store_id ht loc v) = map (map item_key) ht \<and>
        load_id (store_id ht loc v) loc = v) \<and>
     (hash_get hash ht k = None \<longrightarrow>
        hash_put hash True ht k v =
          (True, ht[hash k mod TABLE_SIZE :=
                   \<lparr>item_key = snprintf_key k, item_id = v\<rparr> # ht ! (hash k mod TABLE_SIZE)]) \<and>
        hash_put hash False ht k v = (False, ht)) \<and>
     (\<forall>ht'. hash_put hash m ht k v = (True, ht') \<longrightarrow>
        (\<exists>loc. hash_get hash ht' k = Some loc \<and> load_id ht' loc = v)) \<and>
     (\<forall>ht1 ht2. hash_put hash m1 ht k v1 = (True, ht1) \<and> hash_put hash m2 ht1 k v2 = (True, ht2) \<longrightarrow>
        (\<exists>loc. hash_get hash ht2 k = Some loc \<and> load_id ht2 loc = v2) \<and>
        map (map item_key) ht2 = map (map item_key) ht1) \<and>
     ((\<forall>p \<in> set ps. snprintf_key (fst (snd p)) \<noteq> snprintf_key k) \<longrightarrow>
        hash_get hash (hash_puts hash (replicate TABLE_SIZE []) ps) k = None) \<and>
     (length k < KEY_SIZE \<and> (\<forall>p \<in> set ps. length (fst (snd p)) < KEY_SIZE \<and> fst (snd p) \<noteq> k) \<longrightarrow>
        hash_get hash (hash_puts hash (replicate TABLE_SIZE []) ps) k = None)"
proof (intro conjI allI impI)
  fix loc assume g: "hash_get hash ht k = Some loc"
  show "hash_put hash m ht k v = (True, store_id ht loc v)" by (rule hash_put_existing[OF g])
  show "map (map item_key) (store_id ht loc v) = map (map item_key) ht"
    by (rule store_id_keys[OF g])
  show "load_id (store_id ht loc v) loc = v" by (rule load_store_id[OF g assms])
next
  assume "hash_get hash ht k = None"
  then show "hash_put hash True ht k v =
          (True, ht[hash k mod TABLE_SIZE :=
                   \<lparr>item_key = snprintf_key k, item_id = v\<rparr> # ht ! (hash k mod TABLE_SIZE)])"
    and "hash_put hash False ht k v = (False, ht)"
    by (simp_all add: hash_put_new)
next
  fix ht'
  assume "hash_put hash m ht k v = (True, ht')"
  then have "found hash ht' k v" by (rule hash_put_found[OF assms])
  then show "\<exists>loc. hash_get hash ht' k = Some loc \<and> load_id ht' loc = v" by (rule found_load)
next
  fix ht1 ht2
  assume a: "hash_put hash m1 ht k v1 = (True, ht1) \<and> hash_put hash m2 ht1 k v2 = (True, ht2)"
  have l1: "length ht1 = TABLE_SIZE" using a hash_put_length[of hash m1 ht k v1] assms by simp
  from a have f1: "found hash ht1 k v1" using hash_put_found[OF assms] by blast
  from a have "found hash ht2 k v2" using hash_put_found[OF l1] by blast
  then show "\<exists>loc. hash_get hash ht2 k = Some loc \<and> load_id ht2 loc = v2" by (rule found_load)
  from f1 obtain loc where loc: "hash_get hash ht1 k = Some loc" by (auto dest: found_load)
  with a have "ht2 = store_id ht1 loc v2" by (simp add: hash_put_existing)
  then show "map (map item_key) ht2 = map (map item_key) ht1" by (simp add: store_id_keys[OF loc])
next
  assume "\<forall>p \<in> set ps. snprintf_key (fst (snd p)) \<noteq> snprintf_key k"
  then show "hash_get hash (hash_puts hash (replicate TABLE_SIZE []) ps) k = None"
    by (intro hash_puts_keep_absent hash_get_empty) simp_all
next
  assume a: "length k < KEY_SIZE \<and> (\<forall>p \<in> set ps. length (fst (snd p)) < KEY_SIZE \<and> fst (snd p) \<noteq> k)"
  then have "\<forall>p \<in> set ps. snprintf_key (fst (snd p)) \<noteq> snprintf_key k"
    by (simp add: snprintf_key_short)
  then show "hash_get hash (hash_puts hash (replicate TABLE_SIZE []) ps) k = None"
    by (intro hash_puts_keep_absent hash_get_empty) simp_all
qed

text \<open>
  The theorem at work, with the sample hash: the key \<^verbatim>\<open>a\<close> is put with the value 10 and
  again with the value 20 into the chain of slot 97, which then holds one entry with the
  value 20; the key \<^verbatim>\<open>b\<close>, never put, is not found.
\<close>

theorem hash_put_get_latest_witness:
  "length (replicate TABLE_SIZE ([]::LL)) = TABLE_SIZE \<and>
   hash_get hash_sum (replicate TABLE_SIZE []) ''a'' = None \<and>
   hash_put hash_sum True (replicate TABLE_SIZE []) ''a'' (Some 10) =
     (True, (replicate TABLE_SIZE [])[97 := [\<lparr>item_key = ''a'', item_id = Some 10\<rparr>]]) \<and>
   hash_get hash_sum ((replicate TABLE_SIZE [])[97 := [\<lparr>item_key = ''a'', item_id = Some 10\<rparr>]]) ''a''
     = Some (97, 0) \<and>
   hash_put hash_sum True ((replicate TABLE_SIZE [])[97 := [\<lparr>item_key = ''a'', item_id = Some 10\<rparr>]])
       ''a'' (Some 20) =
     (True, (replicate TABLE_SIZE [])[97 := [\<lparr>item_key = ''a'', item_id = Some 20\<rparr>]]) \<and>
   hash_get hash_sum (hash_puts hash_sum (replicate TABLE_SIZE []) [(True, ''a'', Some 10)]) ''b'' = None"
proof -
  let ?e = "replicate TABLE_SIZE ([]::LL)"
  let ?t1 = "?e[97 := [\<lparr>item_key = ''a'', item_id = Some 10\<rparr>]]"
  have len: "length ?e = TABLE_SIZE" by simp
  have h: "hash_sum ''a'' mod 128 = 97" by (simp add: hash_sum_def)
  have sk: "snprintf_key ''a'' = ''a''" "snprintf_key ''b'' = ''b''"
    by (simp_all add: snprintf_key_def KEY_SIZE_def)
  have g0: "hash_get hash_sum ?e ''a'' = None" by (rule hash_get_empty)
  have p1: "hash_put hash_sum True ?e ''a'' (Some 10) = (True, ?t1)"
    using hash_put_get_latest[OF len, where hash = hash_sum and k = "''a''" and m = True and v = "Some 10"] g0
    by (simp add: h sk TABLE_SIZE_def)
  have len1: "length ?t1 = TABLE_SIZE" by simp
  have g1: "hash_get hash_sum ?t1 ''a'' = Some (97, 0)"
    by (simp add: hash_get_def h sk cmp_def TABLE_SIZE_def)
  have p2: "hash_put hash_sum True ?t1 ''a'' (Some 20) =
      (True, ?e[97 := [\<lparr>item_key = ''a'', item_id = Some 20\<rparr>]])"
    using hash_put_get_latest[OF len1, where hash = hash_sum and k = "''a''" and m = True and v = "Some 20"] g1
    by (simp add: store_id_def TABLE_SIZE_def)
  have g2: "hash_get hash_sum (hash_puts hash_sum ?e [(True, ''a'', Some 10)]) ''b'' = None"
    using hash_put_get_latest[OF len, where hash = hash_sum and k = "''b''" and ps = "[(True, ''a'', Some 10)]"]
    by (simp add: sk)
  show ?thesis using len g0 p1 g1 p2 g2 by simp
qed

text \<open>
  Claim C3 as stated fails for keys longer than the key buffer. The two keys below
  differ, only the first was put, and \<^verbatim>\<open>hash_get\<close> on the second returns the entry of the
  first: both are cut to the same 254 bytes and fall into the same bucket.
\<close>

theorem hash_get_never_inserted_counterexample:
  "replicate 254 CHR ''a'' @ ''bc'' \<noteq> replicate 254 CHR ''a'' @ ''cb'' \<and>
   hash_get hash_sum
     (snd (hash_put hash_sum True (replicate TABLE_SIZE []) (replicate 254 CHR ''a'' @ ''bc'') (Some 10)))
     (replicate 254 CHR ''a'' @ ''cb'') = Some (3, 0)"
proof -
  let ?e = "replicate TABLE_SIZE ([]::LL)"
  let ?k1 = "replicate 254 CHR ''a'' @ ''bc''" and ?k2 = "replicate 254 CHR ''a'' @ ''cb''"
  have h: "hash_sum ?k1 mod 128 = 3" "hash_sum ?k2 mod 128 = 3"
    by (simp_all add: hash_sum_def sum_list_replicate)
  have sk: "snprintf_key ?k1 = replicate 254 CHR ''a''" "snprintf_key ?k2 = replicate 254 CHR ''a''"
    by (simp_all add: snprintf_key_def KEY_SIZE_def)
  have p: "hash_put hash_sum True ?e ?k1 (Some 10) =
      (True, ?e[3 := [\<lparr>item_key = replicate 254 CHR ''a'', item_id = Some 10\<rparr>]])"
    using hash_put_new[OF hash_get_empty, of hash_sum True ?k1 "Some 10"]
    unfolding TABLE_SIZE_def h sk by simp
  have "hash_get hash_sum (?e[3 := [\<lparr>item_key = replicate 254 CHR ''a'', item_id = Some 10\<rparr>]]) ?k2
      = Some (3, 0)"
    unfolding hash_get_def Let_def TABLE_SIZE_def h sk by (simp add: cmp_def)
  then show ?thesis by (simp only: p snd_conv) simp
qed













section \<open>The GET and PUT handlers\<close>

lemma responses_append: "responses (a @ b) = responses a @ responses b"
  by (induction a rule: responses.induct) simp_all

lemma closed_fds_append: "closed_fds (a @ b) = closed_fds a @ closed_fds b"
  by (induction a rule: closed_fds.induct) simp_all

lemma audits_append: "audits (a @ b) = audits a @ audits b"
  by (induction a rule: audits.induct) simp_all

lemma get_file_lock_events:
  "snd (snd (get_file_lock hash n m ht p)) \<in>
     {[Mutex_lock, Mutex_unlock],
      [Mutex_lock, Rwlock_new None, Stderr (''Failed to create new lock for file: '' @ p), Mutex_unlock],
      [Mutex_lock, Rwlock_new n, Rwlock_delete (the n),
       Stderr (''Failed to add lock to hash table for file: '' @ p), Mutex_unlock],
      [Mutex_lock, Rwlock_new n, Mutex_unlock]}"
  by (auto simp: get_file_lock_def Let_def split: option.splits)

lemma get_file_lock_no_handler_events:
  "responses (snd (snd (get_file_lock hash n m ht p))) = []"
  "closed_fds (snd (snd (get_file_lock hash n m ht p))) = []"
  "audits (snd (snd (get_file_lock hash n m ht p))) = []"
  "Writer_lock x \<notin> set (snd (snd (get_file_lock hash n m ht p)))"
  "Writer_unlock x \<notin> set (snd (snd (get_file_lock hash n m ht p)))"
  "Reader_lock x \<notin> set (snd (snd (get_file_lock hash n m ht p)))"
  "Reader_unlock x \<notin> set (snd (snd (get_file_lock hash n m ht p)))"
  using get_file_lock_events[of hash n m ht p] by auto

lemma get_file_lock_rwlock_new_fails:
  "get_file_lock hash None m (replicate TABLE_SIZE []) p =
     (None, replicate TABLE_SIZE [],
      [Mutex_lock, Rwlock_new None, Stderr (''Failed to create new lock for file: '' @ p),
       Mutex_unlock])"
  by (simp add: get_file_lock_def hash_get_empty)

lemma get_file_lock_fresh_a:
  "get_file_lock hash_sum (Some 10) True (replicate TABLE_SIZE []) ''a'' =
     (Some 10, (replicate TABLE_SIZE [])[97 := [\<lparr>item_key = ''a'', item_id = Some 10\<rparr>]],
      [Mutex_lock, Rwlock_new (Some 10), Mutex_unlock])"
proof -
  have h: "hash_sum ''a'' mod 128 = 97" by (simp add: hash_sum_def)
  have sk: "snprintf_key ''a'' = ''a''" by (simp add: snprintf_key_def KEY_SIZE_def)
  have g: "hash_get hash_sum (replicate TABLE_SIZE []) ''a'' = None" by (rule hash_get_empty)
  have p: "hash_put hash_sum True (replicate TABLE_SIZE []) ''a'' (Some 10) =
      (True, (replicate TABLE_SIZE [])[97 := [\<lparr>item_key = ''a'', item_id = Some 10\<rparr>]])"
    using hash_put_new[OF g, of True "Some 10"] by (simp add: h sk TABLE_SIZE_def)
  show ?thesis by (simp add: get_file_lock_def g p Let_def)
qed

text \<open>
  Claim C5. When \<^verbatim>\<open>open\<close> fails in \<^verbatim>\<open>handle_get\<close>, the handler sends one response, 403 for
  \<^verbatim>\<open>EACCES\<close>, 404 for \<^verbatim>\<open>ENOENT\<close> and 500 for every other error, writes one audit record with
  that status, and returns. These three events are all it does: \<^verbatim>\<open>get_file_lock\<close> is not
  called, no lock is taken, and the table of the registry is unchanged.
\<close>

theorem handle_get_open_failure:
  assumes "get_open env = Inl e"
  shows "handle_get hash env ht c =
           ([Open_file (conn_uri c) O_RDONLY,
             Conn_send_response
               (if e = EACCES then RESPONSE_FORBIDDEN
                else if e = ENOENT then RESPONSE_NOT_FOUND
                else RESPONSE_INTERNAL_SERVER_ERROR),
             audit_log ''GET'' c (if e = EACCES then 403 else if e = ENOENT then 404 else 500)],
            ht, Returned)"
  using assms by (simp add: handle_get_def)

text \<open>
  The theorem at work: a GET of \<^verbatim>\<open>missing.txt\<close>, whose \<^verbatim>\<open>open\<close> fails with \<^verbatim>\<open>ENOENT\<close>.
\<close>

theorem handle_get_open_failure_witness:
  "get_open \<lparr>get_open = Inl ENOENT, get_new_lock = Some 10, get_malloc_ok = True,
             get_fstat = None, get_send_file = None\<rparr> = Inl ENOENT \<and>
   handle_get hash_sum
     \<lparr>get_open = Inl ENOENT, get_new_lock = Some 10, get_malloc_ok = True,
      get_fstat = None, get_send_file = None\<rparr>
     (replicate TABLE_SIZE [])
     \<lparr>conn_uri = ''missing.txt'', conn_request_id = None\<rparr> =
   ([Open_file ''missing.txt'' O_RDONLY, Conn_send_response RESPONSE_NOT_FOUND,
     Audit ''GET'' ''missing.txt'' 404 ''0''],
    replicate TABLE_SIZE [], Returned)"
  using handle_get_open_failure[of
      "\<lparr>get_open = Inl ENOENT, get_new_lock = Some 10, get_malloc_ok = True,
        get_fstat = None, get_send_file = None\<rparr>" ENOENT hash_sum "replicate TABLE_SIZE []"
      "\<lparr>conn_uri = ''missing.txt'', conn_request_id = None\<rparr>"]
  by (simp add: audit_log_def)

text \<open>
  Claim C2 fails on the code. When \<^verbatim>\<open>get_file_lock\<close> returns NULL, \<^verbatim>\<open>handle_get\<close> (after a
  successful \<^verbatim>\<open>open\<close>) and \<^verbatim>\<open>handle_put\<close> (after a successful receive) do not test the
  result: the next call is \<^verbatim>\<open>reader_lock\<close> or \<^verbatim>\<open>writer_lock\<close> on the NULL pointer, and no
  response has been sent.
\<close>

theorem handlers_ignore_failed_lock:
  assumes "fst (get_file_lock hash n m ht (conn_uri c)) = None"
  shows
    "(get_open genv = Inr fd \<and> get_new_lock genv = n \<and> get_malloc_ok genv = m \<longrightarrow>
        handle_get hash genv ht c =
          ([Open_file (conn_uri c) O_RDONLY] @ snd (snd (get_file_lock hash n m ht (conn_uri c)))
             @ [Reader_lock None],
           fst (snd (get_file_lock hash n m ht (conn_uri c))), Crashed) \<and>
        responses (fst (handle_get hash genv ht c)) = []) \<and>
     (put_mkstemp penv = Some tmp_fd \<and> put_recv_file penv = None \<and>
      put_new_lock penv = n \<and> put_malloc_ok penv = m \<longrightarrow>
        handle_put hash penv ht c =
          ([Mkstemp, Conn_recv_file tmp_fd, Close_fd tmp_fd]
             @ snd (snd (get_file_lock hash n m ht (conn_uri c))) @ [Writer_lock None],
           fst (snd (get_file_lock hash n m ht (conn_uri c))), Crashed) \<and>
        responses (fst (handle_put hash penv ht c)) = [])"
proof (intro conjI impI)
  assume a: "get_open genv = Inr fd \<and> get_new_lock genv = n \<and> get_malloc_ok genv = m"
  show g: "handle_get hash genv ht c =
          ([Open_file (conn_uri c) O_RDONLY] @ snd (snd (get_file_lock hash n m ht (conn_uri c)))
             @ [Reader_lock None],
           fst (snd (get_file_lock hash n m ht (conn_uri c))), Crashed)"
    using a assms by (simp add: handle_get_def Let_def)
  show "responses (fst (handle_get hash genv ht c)) = []"
    unfolding g by (simp add: responses_append get_file_lock_no_handler_events)
next
  assume a: "put_mkstemp penv = Some tmp_fd \<and> put_recv_file penv = None \<and>
      put_new_lock penv = n \<and> put_malloc_ok penv = m"
  show p: "handle_put hash penv ht c =
          ([Mkstemp, Conn_recv_file tmp_fd, Close_fd tmp_fd]
             @ snd (snd (get_file_lock hash n m ht (conn_uri c))) @ [Writer_lock None],
           fst (snd (get_file_lock hash n m ht (conn_uri c))), Crashed)"
    using a assms by (simp add: handle_put_def Let_def)
  show "responses (fst (handle_put hash penv ht c)) = []"
    unfolding p by (simp add: responses_append get_file_lock_no_handler_events)
qed

text \<open>
  The theorem at work: \<^verbatim>\<open>rwlock_new\<close> fails for the path \<^verbatim>\<open>a\<close> on a fresh registry.
\<close>

theorem handlers_ignore_failed_lock_witness:
  "fst (get_file_lock hash_sum None True (replicate TABLE_SIZE []) ''a'') = None \<and>
   handle_get hash_sum
     \<lparr>get_open = Inr 5, get_new_lock = None, get_malloc_ok = True,
      get_fstat = Some \<lparr>st_size = 3, st_isdir = False\<rparr>, get_send_file = None\<rparr>
     (replicate TABLE_SIZE [])
     \<lparr>conn_uri = ''a'', conn_request_id = None\<rparr> =
   ([Open_file ''a'' O_RDONLY, Mutex_lock, Rwlock_new None,
     Stderr ''Failed to create new lock for file: a'', Mutex_unlock, Reader_lock None],
    replicate TABLE_SIZE [], Crashed) \<and>
   handle_put hash_sum
     \<lparr>put_mkstemp = Some 6, put_tmp_name = ''tmpAAAAAA'', put_recv_file = None,
      put_new_lock = None, put_malloc_ok = True, put_access = - 1, put_open_target = Inr 7,
      put_open_tmp = Some 8, put_fstat = Some \<lparr>st_size = 3, st_isdir = False\<rparr>,
      put_pass_n_bytes = 3\<rparr>
     (replicate TABLE_SIZE [])
     \<lparr>conn_uri = ''a'', conn_request_id = None\<rparr> =
   ([Mkstemp, Conn_recv_file 6, Close_fd 6, Mutex_lock, Rwlock_new None,
     Stderr ''Failed to create new lock for file: a'', Mutex_unlock, Writer_lock None],
    replicate TABLE_SIZE [], Crashed)"
proof -
  let ?c = "\<lparr>conn_uri = ''a'', conn_request_id = None\<rparr>"
  have f: "fst (get_file_lock hash_sum None True (replicate TABLE_SIZE []) (conn_uri ?c)) = None"
    by (simp add: get_file_lock_rwlock_new_fails)
  show ?thesis
    using f handlers_ignore_failed_lock[OF f, where
        genv = "\<lparr>get_open = Inr 5, get_new_lock = None, get_malloc_ok = True,
          get_fstat = Some \<lparr>st_size = 3, st_isdir = False\<rparr>, get_send_file = None\<rparr>"
        and fd = 5 and tmp_fd = 6 and penv =
        "\<lparr>put_mkstemp = Some 6, put_tmp_name = ''tmpAAAAAA'', put_recv_file = None,
          put_new_lock = None, put_malloc_ok = True, put_access = - 1, put_open_target = Inr 7,
          put_open_tmp = Some 8, put_fstat = Some \<lparr>st_size = 3, st_isdir = False\<rparr>,
          put_pass_n_bytes = 3\<rparr>"]
    by (simp add: get_file_lock_rwlock_new_fails)
qed

text \<open>
  Claim C7 fails on the code. When \<^verbatim>\<open>fstat\<close> fails, or the path is a directory, \<^verbatim>\<open>handle_get\<close>
  releases the read lock last and returns, but it closes no file descriptor: the
  descriptor that \<^verbatim>\<open>open\<close> returned stays open.
\<close>

theorem handle_get_leaks_descriptor:
  assumes "get_open env = Inr fd"
    and "fst (get_file_lock hash (get_new_lock env) (get_malloc_ok env) ht (conn_uri c)) = Some l"
    and "get_fstat env = None \<or> (\<exists>st. get_fstat env = Some st \<and> st_isdir st)"
  shows "closed_fds (fst (handle_get hash env ht c)) = [] \<and>
         last (fst (handle_get hash env ht c)) = Reader_unlock (Some l) \<and>
         snd (snd (handle_get hash env ht c)) = Returned"
  using assms
  by (auto simp: handle_get_def Let_def closed_fds_append get_file_lock_no_handler_events
      audit_log_def)

text \<open>
  The theorem at work: a GET of the directory \<^verbatim>\<open>a\<close>, opened as descriptor 5. The trace has
  no \<open>Close_fd 5\<close>.
\<close>

theorem handle_get_leaks_descriptor_witness:
  "get_open \<lparr>get_open = Inr 5, get_new_lock = Some 10, get_malloc_ok = True,
      get_fstat = Some \<lparr>st_size = 4096, st_isdir = True\<rparr>, get_send_file = None\<rparr> = Inr 5 \<and>
   handle_get hash_sum
     \<lparr>get_open = Inr 5, get_new_lock = Some 10, get_malloc_ok = True,
      get_fstat = Some \<lparr>st_size = 4096, st_isdir = True\<rparr>, get_send_file = None\<rparr>
     (replicate TABLE_SIZE [])
     \<lparr>conn_uri = ''a'', conn_request_id = None\<rparr> =
   ([Open_file ''a'' O_RDONLY, Mutex_lock, Rwlock_new (Some 10), Mutex_unlock,
     Reader_lock (Some 10), Fstat 5, Conn_send_response RESPONSE_FORBIDDEN,
     Audit ''GET'' ''a'' 403 ''0'', Reader_unlock (Some 10)],
    (replicate TABLE_SIZE [])[97 := [\<lparr>item_key = ''a'', item_id = Some 10\<rparr>]], Returned) \<and>
   closed_fds (fst (handle_get hash_sum
     \<lparr>get_open = Inr 5, get_new_lock = Some 10, get_malloc_ok = True,
      get_fstat = Some \<lparr>st_size = 4096, st_isdir = True\<rparr>, get_send_file = None\<rparr>
     (replicate TABLE_SIZE [])
     \<lparr>conn_uri = ''a'', conn_request_id = None\<rparr>)) = []"
proof -
  let ?env = "\<lparr>get_open = Inr 5, get_new_lock = Some 10, get_malloc_ok = True,
      get_fstat = Some \<lparr>st_size = 4096, st_isdir = True\<rparr>, get_send_file = None\<rparr>"
  let ?c = "\<lparr>conn_uri = ''a'', conn_request_id = None\<rparr>"
  have l: "fst (get_file_lock hash_sum (get_new_lock ?env) (get_malloc_ok ?env)
             (replicate TABLE_SIZE []) (conn_uri ?c)) = Some 10"
    by (simp add: get_file_lock_fresh_a)
  have "closed_fds (fst (handle_get hash_sum ?env (replicate TABLE_SIZE []) ?c)) = []"
    using handle_get_leaks_descriptor[of ?env 5 hash_sum "replicate TABLE_SIZE []" ?c 10] l
    by simp
  moreover have "handle_get hash_sum ?env (replicate TABLE_SIZE []) ?c =
   ([Open_file ''a'' O_RDONLY, Mutex_lock, Rwlock_new (Some 10), Mutex_unlock,
     Reader_lock (Some 10), Fstat 5, Conn_send_response RESPONSE_FORBIDDEN,
     Audit ''GET'' ''a'' 403 ''0'', Reader_unlock (Some 10)],
    (replicate TABLE_SIZE [])[97 := [\<lparr>item_key = ''a'', item_id = Some 10\<rparr>]], Returned)"
    by (simp add: handle_get_def get_file_lock_fresh_a audit_log_def Let_def)
  ultimately show ?thesis by simp
qed

text \<open>
  Claim C6, as amended. When \<^verbatim>\<open>handle_put\<close> holds the write lock and then fails (the target
  cannot be opened, the temporary file cannot be reopened, \<^verbatim>\<open>fstat\<close> fails, or the copy
  fails), it sends exactly one response, which is 500, or 403 when the target cannot be
  opened because of \<^verbatim>\<open>EACCES\<close> or \<^verbatim>\<open>EISDIR\<close>; its last two actions are to remove the
  temporary file and to release the write lock; and it returns.
\<close>

theorem handle_put_failure_cleanup:
  assumes "put_mkstemp env = Some tmp_fd" and "put_recv_file env = None"
    and "fst (get_file_lock hash (put_new_lock env) (put_malloc_ok env) ht (conn_uri c)) = Some l"
    and "put_fails_locked env"
  shows "responses (fst (handle_put hash env ht c)) = [put_failure_response env] \<and>
         Writer_lock (Some l) \<in> set (fst (handle_put hash env ht c)) \<and>
         last (butlast (fst (handle_put hash env ht c))) = Unlink (put_tmp_name env) \<and>
         last (fst (handle_put hash env ht c)) = Writer_unlock (Some l) \<and>
         snd (snd (handle_put hash env ht c)) = Returned"
  using assms
  by (auto simp: handle_put_def Let_def put_fails_locked_def put_failure_response_def
      responses_append get_file_lock_no_handler_events butlast_append audit_log_def
      split: sum.splits option.splits)

text \<open>
  The theorem at work: the copy fails (\<^verbatim>\<open>pass_n_bytes\<close> returns \<open>-1\<close>).
\<close>

theorem handle_put_failure_cleanup_witness:
  "put_fails_locked
     \<lparr>put_mkstemp = Some 6, put_tmp_name = ''tmpAAAAAA'', put_recv_file = None,
      put_new_lock = Some 10, put_malloc_ok = True, put_access = 0,
      put_open_target = Inr 7, put_open_tmp = Some 8,
      put_fstat = Some \<lparr>st_size = 3, st_isdir = False\<rparr>, put_pass_n_bytes = - 1\<rparr> \<and>
   responses (fst (handle_put hash_sum
     \<lparr>put_mkstemp = Some 6, put_tmp_name = ''tmpAAAAAA'', put_recv_file = None,
      put_new_lock = Some 10, put_malloc_ok = True, put_access = 0,
      put_open_target = Inr 7, put_open_tmp = Some 8,
      put_fstat = Some \<lparr>st_size = 3, st_isdir = False\<rparr>, put_pass_n_bytes = - 1\<rparr>
     (replicate TABLE_SIZE [])
     \<lparr>conn_uri = ''a'', conn_request_id = None\<rparr>)) = [RESPONSE_INTERNAL_SERVER_ERROR] \<and>
   handle_put hash_sum
     \<lparr>put_mkstemp = Some 6, put_tmp_name = ''tmpAAAAAA'', put_recv_file = None,
      put_new_lock = Some 10, put_malloc_ok = True, put_access = 0,
      put_open_target = Inr 7, put_open_tmp = Some 8,
      put_fstat = Some \<lparr>st_size = 3, st_isdir = False\<rparr>, put_pass_n_bytes = - 1\<rparr>
     (replicate TABLE_SIZE [])
     \<lparr>conn_uri = ''a'', conn_request_id = None\<rparr> =
   ([Mkstemp, Conn_recv_file 6, Close_fd 6, Mutex_lock, Rwlock_new (Some 10), Mutex_unlock,
     Writer_lock (Some 10), Access ''a'', Open_file ''a'' O_WRONLY_CREAT_TRUNC,
     Open_file ''tmpAAAAAA'' O_RDONLY, Fstat 8, Pass_n_bytes 8 7 3,
     Conn_send_response RESPONSE_INTERNAL_SERVER_ERROR, Audit ''PUT'' ''a'' 500 ''0'',
     Close_fd 7, Close_fd 8, Unlink ''tmpAAAAAA'', Writer_unlock (Some 10)],
    (replicate TABLE_SIZE [])[97 := [\<lparr>item_key = ''a'', item_id = Some 10\<rparr>]], Returned)"
proof -
  let ?env = "\<lparr>put_mkstemp = Some 6, put_tmp_name = ''tmpAAAAAA'', put_recv_file = None,
      put_new_lock = Some 10, put_malloc_ok = True, put_access = 0,
      put_open_target = Inr 7, put_open_tmp = Some 8,
      put_fstat = Some \<lparr>st_size = 3, st_isdir = False\<rparr>, put_pass_n_bytes = - 1\<rparr>"
  let ?c = "\<lparr>conn_uri = ''a'', conn_request_id = None\<rparr>"
  have f: "put_fails_locked ?env" by (simp add: put_fails_locked_def)
  have l: "fst (get_file_lock hash_sum (put_new_lock ?env) (put_malloc_ok ?env)
             (replicate TABLE_SIZE []) (conn_uri ?c)) = Some 10"
    by (simp add: get_file_lock_fresh_a)
  have r: "responses (fst (handle_put hash_sum ?env (replicate TABLE_SIZE []) ?c)) =
      [RESPONSE_INTERNAL_SERVER_ERROR]"
    using handle_put_failure_cleanup[of ?env 6 hash_sum "replicate TABLE_SIZE []" ?c 10] f l
    by (simp add: put_failure_response_def)
  have t: "handle_put hash_sum ?env (replicate TABLE_SIZE []) ?c =
   ([Mkstemp, Conn_recv_file 6, Close_fd 6, Mutex_lock, Rwlock_new (Some 10), Mutex_unlock,
     Writer_lock (Some 10), Access ''a'', Open_file ''a'' O_WRONLY_CREAT_TRUNC,
     Open_file ''tmpAAAAAA'' O_RDONLY, Fstat 8, Pass_n_bytes 8 7 3,
     Conn_send_response RESPONSE_INTERNAL_SERVER_ERROR, Audit ''PUT'' ''a'' 500 ''0'',
     Close_fd 7, Close_fd 8, Unlink ''tmpAAAAAA'', Writer_unlock (Some 10)],
    (replicate TABLE_SIZE [])[97 := [\<lparr>item_key = ''a'', item_id = Some 10\<rparr>]], Returned)"
    by (simp add: handle_put_def get_file_lock_fresh_a audit_log_def Let_def)
  show ?thesis using f r t by simp
qed

text \<open>
  Claim C6 as stated fails: the target cannot be opened because of \<^verbatim>\<open>EACCES\<close>, which is a
  failure after the write lock was taken, and the response is 403, not 500.
\<close>

theorem handle_put_open_failure_counterexample:
  "put_fails_locked
     \<lparr>put_mkstemp = Some 6, put_tmp_name = ''tmpAAAAAA'', put_recv_file = None,
      put_new_lock = Some 10, put_malloc_ok = True, put_access = 0,
      put_open_target = Inl EACCES, put_open_tmp = Some 8,
      put_fstat = Some \<lparr>st_size = 3, st_isdir = False\<rparr>, put_pass_n_bytes = 3\<rparr> \<and>
   handle_put hash_sum
     \<lparr>put_mkstemp = Some 6, put_tmp_name = ''tmpAAAAAA'', put_recv_file = None,
      put_new_lock = Some 10, put_malloc_ok = True, put_access = 0,
      put_open_target = Inl EACCES, put_open_tmp = Some 8,
      put_fstat = Some \<lparr>st_size = 3, st_isdir = False\<rparr>, put_pass_n_bytes = 3\<rparr>
     (replicate TABLE_SIZE [])
     \<lparr>conn_uri = ''a'', conn_request_id = None\<rparr> =
   ([Mkstemp, Conn_recv_file 6, Close_fd 6, Mutex_lock, Rwlock_new (Some 10), Mutex_unlock,
     Writer_lock (Some 10), Access ''a'', Open_file ''a'' O_WRONLY_CREAT_TRUNC,
     Conn_send_response RESPONSE_FORBIDDEN, Audit ''PUT'' ''a'' 403 ''0'',
     Unlink ''tmpAAAAAA'', Writer_unlock (Some 10)],
    (replicate TABLE_SIZE [])[97 := [\<lparr>item_key = ''a'', item_id = Some 10\<rparr>]], Returned)"
  by (simp add: handle_put_def put_fails_locked_def get_file_lock_fresh_a audit_log_def Let_def)


section \<open>Teardown\<close>

lemmas heap_defs = load_def load_Node_def load_LL_def load_Hashtable_def free_def rwlock_delete_def
  store_slot_def list_destroy_def

lemma heap_one_lock_cells:
  "heap_one_lock 1000 = Some (Live (Hashtable_obj (\<lambda>i. if i < TABLE_SIZE then Some i else None)))"
  "heap_one_lock 0 = Some (Live (LL_obj (Some 200)))"
  "heap_one_lock 200 = Some (Live (Node_obj \<lparr>item_key = ''a.txt'', item_id = Some 300\<rparr> None))"
  "heap_one_lock 300 = Some (Live Lock_obj)"
  by (simp_all add: heap_one_lock_def TABLE_SIZE_def)

lemma walk_one: "cleanup_walk heap_one_lock (Some 200) = Some (Inr (heap_one_lock(300 \<mapsto> Freed)))"
  by (simp add: cleanup_walk.simps heap_defs heap_one_lock_cells)

lemma destroy_one: "list_destroy (heap_one_lock(300 \<mapsto> Freed)) (Some 0) = Some (Inl (Double_free 300))"
  by (simp add: list_destroy_loop.simps heap_defs heap_one_lock_cells)

lemma zero_less_TABLE_SIZE: "0 < TABLE_SIZE"
  by (simp add: TABLE_SIZE_def)

lemma cleanup_loop_empty:
  "i \<le> TABLE_SIZE \<Longrightarrow>
   cleanup_loop (\<lambda>a. if a < i then Some Freed else heap_empty_table a) (Some 1000) i =
     Some (Inr (\<lambda>a. if a < TABLE_SIZE then Some Freed else heap_empty_table a))"
proof (induction "TABLE_SIZE - i" arbitrary: i)
  case 0
  then have "i = TABLE_SIZE" by simp
  then show ?case by (subst cleanup_loop.simps) simp
next
  case (Suc n)
  let ?h = "\<lambda>a. if a < i then Some Freed else heap_empty_table a"
  from Suc.hyps(2) have i: "i < TABLE_SIZE" by simp
  then have i1000: "\<not> 1000 < i" by (simp add: TABLE_SIZE_def)
  have t: "load_Hashtable ?h (Some 1000) = Inr (\<lambda>i. if i < TABLE_SIZE then Some i else None)"
    using i1000 by (simp add: load_Hashtable_def load_def heap_empty_table_def TABLE_SIZE_def)
  have l: "load_LL ?h (Some i) = Inr None"
    using i by (simp add: load_LL_def load_def heap_empty_table_def)
  have f: "free ?h (Some i) = Inr (?h(i \<mapsto> Freed))"
    using i by (simp add: free_def heap_empty_table_def)
  have d: "list_destroy ?h (Some i) = Some (Inr (?h(i \<mapsto> Freed)))"
    by (simp add: list_destroy_def l list_destroy_loop.simps f)
  have e: "?h(i \<mapsto> Freed) = (\<lambda>a. if a < Suc i then Some Freed else heap_empty_table a)"
    by (rule ext) auto
  have "cleanup_loop ?h (Some 1000) i =
      cleanup_loop (\<lambda>a. if a < Suc i then Some Freed else heap_empty_table a) (Some 1000) (Suc i)"
    by (subst cleanup_loop.simps) (simp add: i t l cleanup_walk.simps d e)
  also have "\<dots> = Some (Inr (\<lambda>a. if a < TABLE_SIZE then Some Freed else heap_empty_table a))"
    using Suc.hyps(2) i by (intro Suc.hyps(1)) simp_all
  finally show ?case .
qed

lemma cleanup_file_locks_one_lock:
  "cleanup_file_locks registry_one_lock = Some (Inl (Double_free 300))"
proof -
  have l: "cleanup_loop heap_one_lock (Some 1000) 0 = Some (Inl (Double_free 300))"
    by (subst cleanup_loop.simps)
       (simp add: zero_less_TABLE_SIZE load_Hashtable_def load_LL_def load_def
          heap_one_lock_cells walk_one destroy_one)
  show ?thesis
    using l by (simp add: cleanup_file_locks_def registry_one_lock_def)
qed

lemma cleanup_file_locks_empty_registry:
  "cleanup_file_locks registry_empty = Some (Inl (Use_after_free 0))"
proof -
  let ?h = "\<lambda>a. if a < TABLE_SIZE then Some Freed else heap_empty_table a"
  have "cleanup_loop heap_empty_table (Some 1000) 0 = Some (Inr ?h)"
    using cleanup_loop_empty[of 0] by simp
  moreover have "hash_destroy ?h (Some (Some 1000)) = Some (Inl (Use_after_free 0))"
    by (simp add: hash_destroy_def hash_destroy_loop.simps[of _ _ 0] zero_less_TABLE_SIZE
        load_Hashtable_def load_def list_destroy_def load_LL_def heap_empty_table_def)
       (simp add: TABLE_SIZE_def)
  ultimately show ?thesis
    by (simp add: cleanup_file_locks_def registry_empty_def)
qed

text \<open>
  Claim C8 fails on the code. On the registry with one lock, the loop of
  \<^verbatim>\<open>cleanup_file_locks\<close> deletes the lock through its local copy of the pointer, and the
  \<^verbatim>\<open>list_destroy\<close> that follows finds the pointer still in the node and deletes the lock a
  second time. On the registry with no lock, the loop frees every chain through its
  local variable, and \<^verbatim>\<open>hash_destroy\<close> then reads the freed chain of slot 0, which the
  table still points to.
\<close>

theorem cleanup_file_locks_frees_twice:
  "cleanup_file_locks registry_one_lock = Some (Inl (Double_free 300)) \<and>
   cleanup_file_locks registry_empty = Some (Inl (Use_after_free 0))"
  using cleanup_file_locks_one_lock cleanup_file_locks_empty_registry by simp

text \<open>
  Claim C9, as amended. \<^verbatim>\<open>cleanup_file_locks\<close> returns at once, changing nothing, when the
  global \<^verbatim>\<open>file_lock_ht\<close> is NULL.
\<close>

theorem cleanup_file_locks_null_table:
  "file_lock_ht g = None \<Longrightarrow> cleanup_file_locks g = Some (Inr g)"
  by (simp add: cleanup_file_locks_def)

theorem cleanup_file_locks_null_table_witness:
  "file_lock_ht \<lparr>file_lock_ht = None, store = heap_empty_table\<rparr> = None \<and>
   cleanup_file_locks \<lparr>file_lock_ht = None, store = heap_empty_table\<rparr> =
     Some (Inr \<lparr>file_lock_ht = None, store = heap_empty_table\<rparr>)"
  using cleanup_file_locks_null_table[of "\<lparr>file_lock_ht = None, store = heap_empty_table\<rparr>"]
  by simp

text \<open>
  Claim C9 as stated fails: \<^verbatim>\<open>hash_destroy\<close> has no test of its own. Called with a pointer
  to a NULL table pointer, or with NULL itself, it dereferences a null pointer.
\<close>

theorem hash_destroy_null_counterexample:
  "hash_destroy heap_empty_table (Some None) = Some (Inl Null_dereference) \<and>
   hash_destroy heap_empty_table None = Some (Inl Null_dereference)"
  by (simp add: hash_destroy_def hash_destroy_loop.simps[of _ None 0] zero_less_TABLE_SIZE
      load_Hashtable_def load_def)


section \<open>Startup\<close>

lemmas number_defs = skip_space_def skip_sign_def negative_def isspace_def isdigit_def Let_def

lemma strtoull_8080: "strtoull ''8080'' = (8080, [])"
  by (simp add: strtoull_def number_defs ULLONG_MAX_def)

lemma atoi_values:
  "atoi ''0'' = 0" "atoi ''abc'' = 0" "atoi ''-5'' = - 5" "atoi ''3'' = 3"
  "atoi ''4294967297'' = 1"
  by (simp_all add: atoi_def strtol_def int_of_long_def LONG_MAX_def number_defs)

lemma option_loop_t_port:
  "option_loop posixly_correct [''-t'', n, ''8080''] [] DEFAULT_THREADS = Inr (atoi n, [''8080''])"
  by (cases posixly_correct) (simp_all add: option_loop.simps)

lemma option_loop_t_only:
  "option_loop posixly_correct [''-t'', n] [] DEFAULT_THREADS = Inr (atoi n, [])"
  by (simp add: option_loop.simps)

lemma option_loop_port_t:
  "option_loop False [''8080'', ''-t'', n] [] DEFAULT_THREADS = Inr (atoi n, [''8080''])"
  "option_loop True [''8080'', ''-t'', n] [] DEFAULT_THREADS = Inr (4, [''8080'', ''-t'', n])"
  by (simp_all add: option_loop.simps DEFAULT_THREADS_def)

text \<open>
  Claim C10 fails on the code. \<^verbatim>\<open>main\<close> takes the thread count from \<^verbatim>\<open>atoi\<close> and never tests
  it: with \<^verbatim>\<open>-t 0\<close>, and with \<^verbatim>\<open>-t abc\<close>, the server starts to serve on port 8080 with no
  worker thread, and with \<^verbatim>\<open>-t -5\<close> it goes on to declare the thread array with the size
  \<open>-5\<close>. And with \<^verbatim>\<open>-t 3\<close> and no port, \<^verbatim>\<open>argc\<close> is not below 2, so there is no usage
  message and no exit: \<^verbatim>\<open>main\<close> passes the NULL at \<^verbatim>\<open>argv[optind]\<close> to \<^verbatim>\<open>strtoull\<close>. The four
  results hold with and without \<^verbatim>\<open>POSIXLY_CORRECT\<close>.
\<close>

theorem main_thread_count_unchecked:
  "main posixly_correct True [''server'', ''-t'', ''0'', ''8080''] = Serving 0 8080 \<and>
   main posixly_correct True [''server'', ''-t'', ''abc'', ''8080''] = Serving 0 8080 \<and>
   main posixly_correct True [''server'', ''-t'', ''-5'', ''8080''] = Undefined_thread_array (- 5) \<and>
   main posixly_correct True [''server'', ''-t'', ''3''] = Null_argument"
  by (simp add: main_def option_loop_t_port option_loop_t_only atoi_values strtoull_8080)

text \<open>
  What \<^verbatim>\<open>main\<close> does check: whenever it starts to serve, the port is in 1..65535 and the
  listener was set up; with no argument at all it writes the two usage lines and returns
  \<^verbatim>\<open>EXIT_FAILURE\<close>. Some more invocations follow: an option after the port (honoured unless
  \<^verbatim>\<open>POSIXLY_CORRECT\<close> is set), a thread count beyond the range of \<^verbatim>\<open>int\<close>, an unknown option
  and \<^verbatim>\<open>-t\<close> as the last word.
\<close>

lemma main_port_checked:
  assumes "main posixly_correct ok argv = Serving n p"
  shows "1 \<le> p \<and> p \<le> 65535 \<and> ok \<and> 0 \<le> n \<and> 2 \<le> length argv"
  using assms
  by (auto simp: main_def Let_def split: if_splits sum.splits prod.splits list.splits)

lemma main_no_argument:
  "length argv < 2 \<Longrightarrow>
   main posixly_correct ok argv =
     Exit EXIT_FAILURE
       [Warnx (''wrong arguments: '' @ program_name argv @ '' port_num''),
        Fprintf (''usage: '' @ program_name argv @ '' -t <thread count> <port>'')]"
  by (simp add: main_def)

lemma main_examples:
  "main False True [''server'', ''8080'', ''-t'', ''0''] = Serving 0 8080"
  "main True True [''server'', ''8080'', ''-t'', ''0''] = Serving 4 8080"
  "main posixly_correct True [''server'', ''-t'', ''4294967297'', ''8080''] = Serving 1 8080"
  "main posixly_correct ok [''server''] =
     Exit EXIT_FAILURE [Warnx ''wrong arguments: server port_num'',
                        Fprintf ''usage: server -t <thread count> <port>'']"
  "main posixly_correct ok [''server'', ''-x'', ''8080''] =
     Exit EXIT_FAILURE [Getopt_invalid_option CHR ''x'',
                        Fprintf ''usage: server [-t threads] <port>'']"
  "main posixly_correct ok [''server'', ''-t''] =
     Exit EXIT_FAILURE [Getopt_missing_argument CHR ''t'',
                        Fprintf ''usage: server [-t threads] <port>'']"
  by (simp_all add: main_def option_loop_t_port option_loop_port_t atoi_values strtoull_8080
      program_name_def option_loop.simps DEFAULT_THREADS_def)

end
